theory Spec2Isabelle
  imports
    Main
    "HOL-Library.AList"
    "HOL-Library.Char_ord"
    "HOL-Library.List_Lexorder"
    "HOL-Library.Product_Lexorder"
begin

section \<open>Python values and exceptions\<close>

text \<open>
  The training utilities of \<^verbatim>\<open>vae_lm\<close> (\<^verbatim>\<open>training/utils.py\<close>, \<^verbatim>\<open>utils/base.py\<close>,
  \<^verbatim>\<open>utils/logging.py\<close>) are embedded as functions over an explicit process state. Every
  \<^verbatim>\<open>raise\<close> of the source is a value \<open>Inl e\<close> of the result type \<open>exn + 'a\<close>.

  A batch payload (\<^verbatim>\<open>torch.Tensor\<close>) is opaque to the utilities; a list of integers stands
  for it.
\<close>

type_synonym tensor = "int list"

datatype exn =
    TorchBatchError string tensor
  | KeyError string
  | ConfigurationError string
  | ValueError string
  | TypeError string
  | FileNotFoundError string
  | FileExistsError string
  | IsADirectoryError string
  | NotADirectoryError string
  | ReadError string
  | PlainException string
  | RuntimeError string
  | FormatError string
  | KeyboardInterrupt


section \<open>Paths\<close>

text \<open>
  \<^verbatim>\<open>str.split('/')\<close>, \<^verbatim>\<open>'/'.join\<close> and the functions of \<^verbatim>\<open>posixpath\<close> that
  \<^verbatim>\<open>extracted_archive\<close> calls, written after the standard library.
\<close>

fun split_sep :: "string \<Rightarrow> string list" where
  "split_sep [] = [[]]"
| "split_sep (c # cs) =
     (if c = CHR ''/'' then [] # split_sep cs
      else (case split_sep cs of [] \<Rightarrow> [[c]] | x # xs \<Rightarrow> (c # x) # xs))"

fun join_sep :: "string \<Rightarrow> string list \<Rightarrow> string" where
  "join_sep sep [] = []"
| "join_sep sep [x] = x"
| "join_sep sep (x # y # ys) = x @ sep @ join_sep sep (y # ys)"

definition startswith :: "string \<Rightarrow> string \<Rightarrow> bool" where
  "startswith s p = (take (length p) s = p)"

definition isabs :: "string \<Rightarrow> bool" where
  "isabs s = startswith s ''/''"

text \<open>\<^verbatim>\<open>os.path.join(a, b)\<close>.\<close>

definition path_join :: "string \<Rightarrow> string \<Rightarrow> string" where
  "path_join a b =
     (if startswith b ''/'' then b
      else if a = [] \<or> last a = CHR ''/'' then a @ b
      else a @ ''/'' @ b)"

text \<open>The loop of \<^verbatim>\<open>normpath\<close> over the components; \<open>new_comps\<close> is the accumulator.\<close>

fun norm_comps :: "bool \<Rightarrow> string list \<Rightarrow> string list \<Rightarrow> string list" where
  "norm_comps initial_slashes new_comps [] = new_comps"
| "norm_comps initial_slashes new_comps (cmp # comps) =
     (if cmp = [] \<or> cmp = ''.'' then norm_comps initial_slashes new_comps comps
      else if cmp \<noteq> ''..'' \<or> (\<not> initial_slashes \<and> new_comps = [])
                \<or> (new_comps \<noteq> [] \<and> last new_comps = ''..'')
        then norm_comps initial_slashes (new_comps @ [cmp]) comps
      else if new_comps \<noteq> [] then norm_comps initial_slashes (butlast new_comps) comps
      else norm_comps initial_slashes new_comps comps)"

definition normpath :: "string \<Rightarrow> string" where
  "normpath path =
     (if path = [] then ''.''
      else
        let initial_slashes =
              (if startswith path ''/''
               then (if startswith path ''//'' \<and> \<not> startswith path ''///'' then 2 else 1)
               else (0::nat));
            comps = norm_comps (initial_slashes \<noteq> 0) [] (split_sep path);
            p = replicate initial_slashes CHR ''/'' @ join_sep ''/'' comps
        in if p = [] then ''.'' else p)"

definition abspath :: "string \<Rightarrow> string \<Rightarrow> string" where
  "abspath cwd path = (if \<not> isabs path then normpath (path_join cwd path) else normpath path)"

text \<open>
  \<^verbatim>\<open>os.path.commonprefix(m)\<close>: the longest common leading \<^emph>\<open>character\<close> run of the least and the
  greatest string of \<open>m\<close>.
\<close>

fun common_run :: "string \<Rightarrow> string \<Rightarrow> string" where
  "common_run (c # s1) (d # s2) = (if c \<noteq> d then [] else c # common_run s1 s2)"
| "common_run s1 s2 = []"

definition commonprefix :: "string list \<Rightarrow> string" where
  "commonprefix m =
     (case m of [] \<Rightarrow> []
      | x # xs \<Rightarrow> common_run (fold min xs x) (fold max xs x))"

text \<open>
  A file is reached through the list of its path components below the root. The operating system
  resolves a path string to it: relative to the working directory, \<^verbatim>\<open>..\<close> steps up
  (symbolic links are not modelled).
\<close>

type_synonym fpath = "string list"

definition resolve :: "string \<Rightarrow> string \<Rightarrow> fpath" where
  "resolve cwd s = filter (\<lambda>c. c \<noteq> []) (split_sep (abspath cwd s))"

definition str_of_path :: "fpath \<Rightarrow> string" where
  "str_of_path p = ''/'' @ join_sep ''/'' p"




section \<open>Process state\<close>

text \<open>
  A node of the file system is a plain file with its text, a \<^verbatim>\<open>tar.gz\<close> container with
  its members in order, a file written by \<^verbatim>\<open>torch.save\<close> with the message and the batch
  of a failure, a directory, or the file that an archive opened for writing leaves behind when
  an exception closes it before it holds a member: \<^verbatim>\<open>tarfile.open\<close> does not read that one
  back.
\<close>

datatype node =
    File string
  | Archive "(string \<times> node) list"
  | Capture string tensor
  | Dir
  | Truncated

type_synonym filesystem = "(fpath \<times> node) list"

datatype level = DEBUG | INFO | ERROR

text \<open>The fields a \<^verbatim>\<open>logger.bind\<close> call of the source attaches to a record.\<close>

record extras =
  ex_batch :: "tensor option"
  ex_serialization_dir :: "string option"
  ex_message :: "string option"
  ex_metrics :: "string list option"

definition no_extras :: extras where
  "no_extras = \<lparr>ex_batch = None, ex_serialization_dir = None, ex_message = None,
                 ex_metrics = None\<rparr>"

text \<open>The calls made to the experiment tracker (\<^verbatim>\<open>wandb\<close>) and to \<^verbatim>\<open>torch.distributed\<close>.\<close>

datatype call =
    Setup_world int int
  | Wandb_init
  | Wandb_log "string list"
  | Wandb_save string
  | Wandb_finish

text \<open>\<^verbatim>\<open>datetime.now()\<close>.\<close>

record datetime =
  day :: nat
  month :: nat
  year :: nat
  hour :: nat
  minute :: nat
  second :: nat

record state =
  files :: filesystem
  cwd :: string
  environ :: "(string \<times> string) list"
  rank :: int  \<comment> \<open>the attribute \<^verbatim>\<open>run_on_rank_zero.rank\<close>\<close>
  now :: datetime
  log :: "(level \<times> string) list"  \<comment> \<open>messages handed to \<^verbatim>\<open>loguru\<close>\<close>
  batch_handler :: "fpath option"  \<comment> \<open>\<^verbatim>\<open>SaveBatchHandler._directory\<close>, once registered\<close>
  logger_use_wandb :: bool  \<comment> \<open>\<^verbatim>\<open>logger.use_wandb\<close>\<close>
  calls :: "call list"

section \<open>The rank gate (\<^verbatim>\<open>utils/base.py\<close>)\<close>

text \<open>
  \<^verbatim>\<open>int(rank)\<close> on a string of the environment is Python's own conversion; it is a
  parameter \<open>py_int\<close> that returns the integer or raises \<^verbatim>\<open>ValueError\<close>.
\<close>

fun get_rank_keys ::
  "(string \<Rightarrow> exn + int) \<Rightarrow> (string \<times> string) list \<Rightarrow> string list \<Rightarrow> exn + int" where
  "get_rank_keys py_int env [] = Inr 0"
| "get_rank_keys py_int env (key # keys) =
     (case map_of env key of
        Some r \<Rightarrow> py_int r
      | None \<Rightarrow> get_rank_keys py_int env keys)"

definition rank_keys :: "string list" where
  "rank_keys = [''RANK'', ''LOCAL_RANK'']"

definition get_rank :: "(string \<Rightarrow> exn + int) \<Rightarrow> (string \<times> string) list \<Rightarrow> exn + int" where
  "get_rank py_int env = get_rank_keys py_int env rank_keys"

text \<open>
  Importing the module runs
  \<^verbatim>\<open>run_on_rank_zero.rank = getattr(run_on_rank_zero, "rank", _get_rank())\<close> once: the
  function object is new, so the attribute is what \<^verbatim>\<open>_get_rank()\<close> returns.
\<close>

definition import_base :: "(string \<Rightarrow> exn + int) \<Rightarrow> state \<Rightarrow> exn + state" where
  "import_base py_int s =
     (case get_rank py_int (environ s) of
        Inl e \<Rightarrow> Inl e
      | Inr r \<Rightarrow> Inr (s\<lparr>rank := r\<rparr>))"

text \<open>\<^verbatim>\<open>os.environ[key] = value\<close>.\<close>

definition setenv :: "string \<Rightarrow> string \<Rightarrow> state \<Rightarrow> state" where
  "setenv key v s = s\<lparr>environ := AList.update key v (environ s)\<rparr>"

text \<open>
  The wrapper that \<^verbatim>\<open>run_on_rank_zero\<close> returns. The wrapped function takes the state and
  returns its result, or raises, with the state it leaves; the wrapper returns \<^verbatim>\<open>None\<close>
  when the rank is not 0.
\<close>

definition run_on_rank_zero ::
  "(state \<Rightarrow> (exn + 'a) \<times> state) \<Rightarrow> state \<Rightarrow> (exn + 'a option) \<times> state" where
  "run_on_rank_zero func s =
     (if rank s = 0
      then (case func s of
              (Inl e, s') \<Rightarrow> (Inl e, s')
            | (Inr r, s') \<Rightarrow> (Inr (Some r), s'))
      else (Inr None, s))"

definition is_primary :: "state \<Rightarrow> bool" where
  "is_primary s = (rank s = 0)"

section \<open>Files\<close>

text \<open>
  The file system is an association list from resolved paths to nodes; the root always exists.
  \<^verbatim>\<open>Path\<close> arguments of the source are their resolved locations, and \<open>path_div p name\<close>
  is the location of \<^verbatim>\<open>p / name\<close> for a name of one component.
\<close>

definition path_div :: "fpath \<Rightarrow> string \<Rightarrow> fpath" where
  "path_div p name =
     (if name = [] \<or> name = ''.'' then p
      else if name = ''..'' then butlast p
      else p @ [name])"

definition path_exists :: "filesystem \<Rightarrow> fpath \<Rightarrow> bool" where
  "path_exists fs p = (p = [] \<or> map_of fs p \<noteq> None)"

definition is_dir :: "filesystem \<Rightarrow> fpath \<Rightarrow> bool" where
  "is_dir fs p = (p = [] \<or> map_of fs p = Some Dir)"

text \<open>Opening \<open>p\<close> for writing creates or truncates the file; \<open>n\<close> is what it holds at first.\<close>

definition open_w :: "fpath \<Rightarrow> node \<Rightarrow> filesystem \<Rightarrow> exn + filesystem" where
  "open_w p n fs =
     (if is_dir fs p then Inl (IsADirectoryError (str_of_path p))
      else if \<not> path_exists fs (butlast p) then Inl (FileNotFoundError (str_of_path p))
      else if \<not> is_dir fs (butlast p) then Inl (NotADirectoryError (str_of_path p))
      else Inr (AList.update p n fs))"

text \<open>\<^verbatim>\<open>Path.mkdir(exist_ok=False)\<close>.\<close>

definition mkdir :: "fpath \<Rightarrow> filesystem \<Rightarrow> exn + filesystem" where
  "mkdir p fs =
     (if path_exists fs p then Inl (FileExistsError (str_of_path p))
      else if \<not> path_exists fs (butlast p) then Inl (FileNotFoundError (str_of_path p))
      else if \<not> is_dir fs (butlast p) then Inl (NotADirectoryError (str_of_path p))
      else Inr (AList.update p Dir fs))"

definition is_under :: "fpath \<Rightarrow> fpath \<Rightarrow> bool" where
  "is_under d q = (take (length d) q = d)"

text \<open>
  \<^verbatim>\<open>shutil.rmtree(p, ignore_errors=True)\<close>: \<open>p\<close> and everything below it goes. Access
  rights are not part of the file system here: the process is taken to be permitted to remove
  every entry below \<open>p\<close>. Where it is not, the call leaves those entries and the directories
  above them, and says nothing.
\<close>

definition rmtree :: "fpath \<Rightarrow> filesystem \<Rightarrow> filesystem" where
  "rmtree p fs = filter (\<lambda>(q, n). \<not> is_under p q) fs"

section \<open>Logging (\<^verbatim>\<open>utils/logging.py\<close>)\<close>

definition digit :: "nat \<Rightarrow> char" where
  "digit n = ''0123456789'' ! (n mod 10)"

definition pad2 :: "nat \<Rightarrow> string" where
  "pad2 n = [digit (n div 10), digit n]"

definition pad4 :: "nat \<Rightarrow> string" where
  "pad4 n = [digit (n div 1000), digit (n div 100), digit (n div 10), digit n]"

text \<open>\<^verbatim>\<open>time.strftime("%d-%m-%Y_%H-%M")\<close>.\<close>

definition strftime :: "datetime \<Rightarrow> string" where
  "strftime t =
     pad2 (day t) @ ''-'' @ pad2 (month t) @ ''-'' @ pad4 (year t) @ ''_''
       @ pad2 (hour t) @ ''-'' @ pad2 (minute t)"

text \<open>
  \<^verbatim>\<open>SaveBatchHandler.emit\<close> without its decorator; \<open>directory\<close> is
  \<^verbatim>\<open>self._directory\<close>.
\<close>

definition SaveBatchHandler_emit :: "fpath \<Rightarrow> extras \<Rightarrow> state \<Rightarrow> (exn + unit) \<times> state" where
  "SaveBatchHandler_emit directory ex s =
     (case ex_serialization_dir ex of
        None \<Rightarrow> (Inl (TypeError ''unsupported operand type(s) for /''), s)
      | Some name \<Rightarrow>
          let save_directory = path_div directory name in
          (case (if \<not> path_exists (files s) save_directory
                 then mkdir save_directory (files s) else Inr (files s)) of
             Inl e \<Rightarrow> (Inl e, s)
           | Inr fs1 \<Rightarrow>
               let file_suffix = strftime (now s);
                   message = (case ex_message ex of None \<Rightarrow> [] | Some m \<Rightarrow> m);
                   batch = (case ex_batch ex of None \<Rightarrow> [] | Some b \<Rightarrow> b)
               in (case open_w (path_div save_directory (''batch_'' @ file_suffix @ ''.pt''))
                          (Capture message batch) fs1 of
                     Inl e \<Rightarrow> (Inl e, s\<lparr>files := fs1\<rparr>)
                   | Inr fs2 \<Rightarrow> (Inr (), s\<lparr>files := fs2\<rparr>))))"

text \<open>\<^verbatim>\<open>WandBLoggingHandler.emit\<close> without its decorator.\<close>

definition WandBLoggingHandler_emit :: "extras \<Rightarrow> state \<Rightarrow> (exn + unit) \<times> state" where
  "WandBLoggingHandler_emit ex s =
     (if logger_use_wandb s
      then (Inr (), s\<lparr>calls := calls s @ [Wandb_log (case ex_metrics ex of None \<Rightarrow> []
                                                       | Some ks \<Rightarrow> ks)]\<rparr>)
      else (Inr (), s))"

text \<open>
  Modelled from the spec: the class \<^verbatim>\<open>Filter\<close> of \<^verbatim>\<open>vae_lm/utils/filters.py\<close> is not among
  the sources. \<^verbatim>\<open>Filter(type="has_attr", condition=c)\<close> is the predicate of a sink that
  holds of a record carrying the payload field \<open>c\<close>.
\<close>

definition has_attr_batch :: "extras \<Rightarrow> bool" where
  "has_attr_batch ex = (ex_batch ex \<noteq> None)"

definition has_attr_metrics :: "extras \<Rightarrow> bool" where
  "has_attr_metrics ex = (ex_metrics ex \<noteq> None)"

text \<open>
  \<^verbatim>\<open>setup_logging\<close> registers the three handlers; constructing the \<^verbatim>\<open>SaveBatchHandler\<close>
  creates \<^verbatim>\<open>error-batches\<close> under the working directory when it is not there.
\<close>

definition setup_logging :: "state \<Rightarrow> exn + state" where
  "setup_logging s =
     (let directory = path_div (resolve (cwd s) ''.'') ''error-batches'' in
      case (if \<not> path_exists (files s) directory then mkdir directory (files s)
            else Inr (files s)) of
        Inl e \<Rightarrow> Inl e
      | Inr fs \<Rightarrow> Inr (s\<lparr>files := fs, batch_handler := Some directory\<rparr>))"

text \<open>
  A call \<^verbatim>\<open>logger.bind(**extras).<level>(message)\<close>. The message reaches the log; once the
  handlers are registered, each one whose filter accepts the record runs, behind the rank gate of
  its \<^verbatim>\<open>emit\<close>. \<^verbatim>\<open>loguru\<close> catches what a handler raises (\<^verbatim>\<open>catch=True\<close> is its
  default), so the call itself never raises. The \<^verbatim>\<open>RichExceptionHandler\<close> prints to the
  console only and leaves the state as it is.
\<close>

definition logger_emit :: "level \<Rightarrow> extras \<Rightarrow> string \<Rightarrow> state \<Rightarrow> state" where
  "logger_emit l ex m s =
     (let s1 = s\<lparr>log := log s @ [(l, m)]\<rparr> in
      case batch_handler s1 of
        None \<Rightarrow> s1
      | Some directory \<Rightarrow>
          let s2 = (if has_attr_batch ex
                    then snd (run_on_rank_zero (SaveBatchHandler_emit directory ex) s1) else s1)
          in (if has_attr_metrics ex
              then snd (run_on_rank_zero (WandBLoggingHandler_emit ex) s2) else s2))"

definition logger_info :: "string \<Rightarrow> state \<Rightarrow> state" where
  "logger_info m s = logger_emit INFO no_extras m s"

definition logger_error :: "string \<Rightarrow> state \<Rightarrow> state" where
  "logger_error m s = logger_emit ERROR no_extras m s"

section \<open>Metrics (\<^verbatim>\<open>training/utils.py\<close>)\<close>

text \<open>
  A metric is a number (\<^verbatim>\<open>float\<close> or \<^verbatim>\<open>int\<close>, kept abstract as \<open>'f\<close>) or some other
  object. The format \<^verbatim>\<open>{value:.4f}\<close> of a number is a parameter \<open>fmt4\<close>; on another object
  it raises, with the class that goes with the type of the object.
\<close>

datatype 'f metric_value = Number 'f | Object

type_synonym 'f metrics = "(string \<times> 'f metric_value) list"

definition format4 :: "('f \<Rightarrow> string) \<Rightarrow> 'f metric_value \<Rightarrow> exn + string" where
  "format4 fmt4 v =
     (case v of Number x \<Rightarrow> Inr (fmt4 x)
      | Object \<Rightarrow> Inl (FormatError ''.4f''))"

text \<open>
  Dictionaries are mutable objects: a heap holds them, and a reference is the index of its
  object. \<^verbatim>\<open>deepcopy\<close> allocates a new object with the same items.
\<close>

type_synonym 'f heap = "'f metrics list"

definition deepcopy :: "nat \<Rightarrow> 'f heap \<Rightarrow> nat \<times> 'f heap" where
  "deepcopy r h = (length h, h @ [h ! r])"

text \<open>\<^verbatim>\<open>d.pop(key)\<close> on the dictionary behind \<open>r\<close>.\<close>

definition dict_pop :: "nat \<Rightarrow> string \<Rightarrow> 'f heap \<Rightarrow> (exn + 'f metric_value) \<times> 'f heap" where
  "dict_pop r key h =
     (case map_of (h ! r) key of
        None \<Rightarrow> (Inl (KeyError key), h)
      | Some v \<Rightarrow> (Inr v, h[r := AList.delete key (h ! r)]))"

text \<open>The list comprehension of \<^verbatim>\<open>description_from_metrics\<close>, item by item.\<close>

fun format_items :: "('f \<Rightarrow> string) \<Rightarrow> 'f metrics \<Rightarrow> exn + string list" where
  "format_items fmt4 [] = Inr []"
| "format_items fmt4 ((name, v) # items) =
     (case format4 fmt4 v of
        Inl e \<Rightarrow> Inl e
      | Inr t \<Rightarrow> (case format_items fmt4 items of
                    Inl e \<Rightarrow> Inl e
                  | Inr ts \<Rightarrow> Inr ((name @ '': '' @ t) # ts)))"

definition description_from_metrics ::
  "('f \<Rightarrow> string) \<Rightarrow> nat \<Rightarrow> 'f heap \<Rightarrow> (exn + string) \<times> 'f heap" where
  "description_from_metrics fmt4 metrics h =
     (let (metrics', h1) = deepcopy metrics h in
      case dict_pop metrics' ''loss'' h1 of
        (Inl e, h2) \<Rightarrow> (Inl e, h2)
      | (Inr v, h2) \<Rightarrow>
          (case format4 fmt4 v of
             Inl e \<Rightarrow> (Inl e, h2)
           | Inr t \<Rightarrow>
               let loss = ''loss: '' @ t @ '', '' in
               (case format_items fmt4 (h2 ! metrics') of
                  Inl e \<Rightarrow> (Inl e, h2)
                | Inr ts \<Rightarrow> (Inr (loss @ join_sep '', '' ts @ '' ||''), h2))))"

definition ljust :: "string \<Rightarrow> nat \<Rightarrow> string" where
  "ljust s w = s @ replicate (w - length s) CHR '' ''"

definition lower_char :: "char \<Rightarrow> char" where
  "lower_char c = (if CHR ''A'' \<le> c \<and> c \<le> CHR ''Z'' then char_of (of_char c + (32::nat)) else c)"

definition lower :: "string \<Rightarrow> string" where
  "lower s = map lower_char s"

text \<open>\<^verbatim>\<open>max\<close> over a generator of lengths.\<close>

definition py_max :: "nat list \<Rightarrow> exn + nat" where
  "py_max xs =
     (case xs of [] \<Rightarrow> Inl (ValueError ''max() arg is an empty sequence'')
      | y # ys \<Rightarrow> Inr (fold max ys y))"

text \<open>
  The body of \<^verbatim>\<open>log_metrics\<close>. A dictionary of metrics is the list of its items in insertion
  order, with distinct keys; \<open>info\<close> holds the values already turned into text by the f-string.
\<close>

definition log_metric_line ::
  "('f \<Rightarrow> string) \<Rightarrow> 'f metrics \<Rightarrow> nat \<Rightarrow> string \<Rightarrow> state \<Rightarrow> state" where
  "log_metric_line fmt4 metrics max_length metric s =
     (case map_of metrics metric of
        Some (Number metric_value) \<Rightarrow>
          logger_info (ljust metric max_length @ '' | '' @ fmt4 metric_value) s
      | _ \<Rightarrow> s)"

definition info_line :: "string \<Rightarrow> (string \<times> string) list option \<Rightarrow> string" where
  "info_line mode_str info =
     (case info of
        Some i \<Rightarrow> mode_str @ '': info -- ''
                    @ join_sep '', '' (map (\<lambda>(k, v). lower (k @ '': '' @ v)) i)
      | None \<Rightarrow> mode_str)"

definition log_metrics_body ::
  "('f \<Rightarrow> string) \<Rightarrow> string \<Rightarrow> 'f metrics \<Rightarrow> (string \<times> string) list option \<Rightarrow> state
     \<Rightarrow> (exn + unit) \<times> state" where
  "log_metrics_body fmt4 mode_str metrics info s =
     (let s1 = logger_info (info_line mode_str info) s
      in case py_max (map length (map fst metrics)) of
           Inl e \<Rightarrow> (Inl e, s1)
         | Inr max_length \<Rightarrow>
             let s2 = fold (log_metric_line fmt4 metrics max_length)
                        (sort_key (\<lambda>x. (length x, x)) (map fst metrics)) s1
             in (Inr (),
                 logger_emit DEBUG
                   (no_extras\<lparr>ex_metrics :=
                      Some (map (\<lambda>(k, v). lower mode_str @ ''/'' @ k) metrics)\<rparr>)
                   ''Logging metrics to additional sources.'' s2))"

definition log_metrics ::
  "('f \<Rightarrow> string) \<Rightarrow> string \<Rightarrow> 'f metrics \<Rightarrow> (string \<times> string) list option \<Rightarrow> state
     \<Rightarrow> (exn + unit option) \<times> state" where
  "log_metrics fmt4 mode_str metrics info s =
     run_on_rank_zero (log_metrics_body fmt4 mode_str metrics info) s"

section \<open>Archives (\<^verbatim>\<open>training/utils.py\<close>)\<close>

definition CONFIG_NAME :: string where
  "CONFIG_NAME = ''config.json''"

definition WEIGHTS_NAME :: string where
  "WEIGHTS_NAME = ''weights.pt''"

definition METRICS_NAME :: string where
  "METRICS_NAME = ''metrics.json''"

text \<open>
  \<^verbatim>\<open>TarFile.add(name, arcname)\<close> on the archive being written at \<open>archive_file\<close>, with the
  members added so far. The archive itself is skipped; a missing file raises; a directory goes
  in with everything below it, in the order of the recursive walk over sorted listings, which is
  the order of the relative paths.
\<close>

definition tar_add ::
  "fpath \<Rightarrow> filesystem \<Rightarrow> fpath \<Rightarrow> string \<Rightarrow> (string \<times> node) list
     \<Rightarrow> exn + (string \<times> node) list" where
  "tar_add archive_file fs name arcname members =
     (if name = archive_file then Inr members
      else case map_of fs name of
             None \<Rightarrow> Inl (FileNotFoundError (str_of_path name))
           | Some Dir \<Rightarrow>
               Inr (members @ (arcname, Dir)
                    # map (\<lambda>(q, n). (arcname @ ''/'' @ join_sep ''/'' (drop (length name) q), n))
                        (sort_key fst
                           (filter (\<lambda>(q, n). is_under name q \<and> q \<noteq> name \<and> q \<noteq> archive_file)
                              fs)))
           | Some n \<Rightarrow> Inr (members @ [(arcname, n)]))"

text \<open>One \<^verbatim>\<open>archive.add\<close> inside the \<^verbatim>\<open>with\<close> block: what is added reaches the file.\<close>

definition archive_add ::
  "fpath \<Rightarrow> fpath \<Rightarrow> string \<Rightarrow> filesystem \<Rightarrow> exn + filesystem" where
  "archive_add archive_file name arcname fs =
     (case tar_add archive_file fs name arcname
             (case map_of fs archive_file of Some (Archive ms) \<Rightarrow> ms | _ \<Rightarrow> []) of
        Inl e \<Rightarrow> Inl e
      | Inr ms \<Rightarrow> Inr (AList.update archive_file (Archive ms) fs))"

text \<open>
  \<^verbatim>\<open>TarFile.__exit__\<close> on an exception closes the file without finishing the archive. What
  was added can still be read back as members; a file without a member cannot be read as an
  archive any more.
\<close>

definition abandon :: "fpath \<Rightarrow> filesystem \<Rightarrow> filesystem" where
  "abandon archive_file fs =
     (case map_of fs archive_file of
        Some (Archive []) \<Rightarrow> AList.update archive_file Truncated fs
      | _ \<Rightarrow> fs)"

text \<open>
  The body of the \<^verbatim>\<open>with\<close> block of \<^verbatim>\<open>archive_model\<close>, on the files as they are once
  the archive is open. An exception abandons the archive and goes on to the caller; the file
  opened for writing stays, with the members added before.
\<close>

definition add_artifacts ::
  "fpath \<Rightarrow> fpath \<Rightarrow> fpath \<Rightarrow> fpath \<Rightarrow> fpath \<Rightarrow> filesystem \<Rightarrow> (exn + unit) \<times> filesystem" where
  "add_artifacts archive_file config_file weights_file metrics_file vocabulary fs0 =
     (case archive_add archive_file config_file CONFIG_NAME fs0 of
        Inl e \<Rightarrow> (Inl e, abandon archive_file fs0)
      | Inr fs1 \<Rightarrow>
          (case archive_add archive_file weights_file WEIGHTS_NAME fs1 of
             Inl e \<Rightarrow> (Inl e, abandon archive_file fs1)
           | Inr fs2 \<Rightarrow>
               (case archive_add archive_file metrics_file METRICS_NAME fs2 of
                  Inl e \<Rightarrow> (Inl e, abandon archive_file fs2)
                | Inr fs3 \<Rightarrow>
                    (case archive_add archive_file vocabulary ''vocabulary'' fs3 of
                       Inl e \<Rightarrow> (Inl e, abandon archive_file fs3)
                     | Inr fs4 \<Rightarrow> (Inr (), fs4)))))"

text \<open>\<^verbatim>\<open>archive_model\<close>.\<close>

definition archive_model ::
  "fpath \<Rightarrow> fpath \<Rightarrow> fpath option \<Rightarrow> state \<Rightarrow> (exn + unit) \<times> state" where
  "archive_model serialization_dir weights archive_path s =
     (let weights_file = path_div weights ''model.pt'' in
      if \<not> path_exists (files s) weights_file
      then (Inr (), logger_error (''weights file '' @ str_of_path weights_file
                                   @ '' does not exist, unable to archive model.'') s)
      else
        let metrics_file = path_div weights METRICS_NAME in
        if \<not> path_exists (files s) metrics_file
        then (Inr (), logger_error (''metrics file '' @ str_of_path metrics_file
                                     @ '' does not exist, unable to archive model.'') s)
        else
          let config_file = path_div serialization_dir CONFIG_NAME;
              s1 = (if \<not> path_exists (files s) config_file
                    then logger_error (''config file '' @ str_of_path config_file
                                        @ '' does not exist, unable to archive model.'') s
                    else s);
              archive_file =
                (case archive_path of
                   Some p \<Rightarrow> if is_dir (files s1) p then path_div p ''model.tar.gz'' else p
                 | None \<Rightarrow> path_div serialization_dir ''model.tar.gz'');
              s2 = logger_info (''Archiving data to '' @ str_of_path archive_file @ ''.'') s1
          in case open_w archive_file (Archive []) (files s2) of
               Inl e \<Rightarrow> (Inl e, s2)
             | Inr fs0 \<Rightarrow>
                 (case add_artifacts archive_file config_file weights_file metrics_file
                         (path_div serialization_dir ''vocabulary'') fs0 of
                    (r, fs) \<Rightarrow> (r, s2\<lparr>files := fs\<rparr>)))"

text \<open>\<^verbatim>\<open>tarfile.open(path, "r:gz")\<close> gives the members of the container at \<open>path\<close>.\<close>

definition tar_open_r :: "fpath \<Rightarrow> filesystem \<Rightarrow> exn + (string \<times> node) list" where
  "tar_open_r p fs =
     (if is_dir fs p then Inl (IsADirectoryError (str_of_path p))
      else case map_of fs p of
             None \<Rightarrow> Inl (FileNotFoundError (str_of_path p))
           | Some (Archive ms) \<Rightarrow> Inr ms
           | Some Truncated \<Rightarrow> Inl (ReadError ''empty file'')
           | Some n \<Rightarrow> Inl (ReadError ''not a gzip file''))"

definition is_within_directory :: "string \<Rightarrow> string \<Rightarrow> string \<Rightarrow> bool" where
  "is_within_directory wd directory target =
     (let abs_directory = abspath wd directory;
          abs_target = abspath wd target;
          prefix = commonprefix [abs_directory, abs_target]
      in prefix = abs_directory)"

text \<open>The \<^verbatim>\<open>for\<close> loop of \<^verbatim>\<open>safe_extract\<close> over \<^verbatim>\<open>tar.getmembers()\<close>.\<close>

fun check_members :: "string \<Rightarrow> string \<Rightarrow> (string \<times> node) list \<Rightarrow> exn + unit" where
  "check_members wd path [] = Inr ()"
| "check_members wd path ((name, n) # members) =
     (let member_path = path_join path name in
      if \<not> is_within_directory wd path member_path
      then Inl (PlainException ''Attempted Path Traversal in Tar File'')
      else check_members wd path members)"

text \<open>
  \<^verbatim>\<open>tar.extractall(path)\<close> takes the members in order. A member goes to the location that
  \<^verbatim>\<open>os.path.join(path, member.name)\<close> resolves to, and the directories above it that are
  missing are made first.
\<close>

definition ancestors :: "fpath \<Rightarrow> fpath list" where
  "ancestors p = map (\<lambda>k. take k p) [1..<length p]"

definition makedirs :: "fpath list \<Rightarrow> filesystem \<Rightarrow> filesystem" where
  "makedirs ds fs = fold (\<lambda>a fs. if path_exists fs a then fs else AList.update a Dir fs) ds fs"

definition write_member :: "fpath \<Rightarrow> node \<Rightarrow> filesystem \<Rightarrow> filesystem" where
  "write_member target n fs = AList.update target n (makedirs (ancestors target) fs)"

definition extractall :: "string \<Rightarrow> string \<Rightarrow> (string \<times> node) list \<Rightarrow> filesystem \<Rightarrow> filesystem" where
  "extractall wd path members fs =
     fold (\<lambda>(name, n). write_member (resolve wd (path_join path name)) n) members fs"



definition safe_extract ::
  "(string \<times> node) list \<Rightarrow> string \<Rightarrow> state \<Rightarrow> (exn + unit) \<times> state" where
  "safe_extract tar path s =
     (case check_members (cwd s) path tar of
        Inl e \<Rightarrow> (Inl e, s)
      | Inr u \<Rightarrow> (Inr (), s\<lparr>files := extractall (cwd s) path tar (files s)\<rparr>))"

text \<open>
  The context manager \<^verbatim>\<open>extracted_archive\<close> around the body of its \<^verbatim>\<open>with\<close> statement.
  \<open>mkdtemp\<close> is the name \<^verbatim>\<open>tempfile.mkdtemp()\<close> picks (an absolute path that is not in use);
  the directory is created there. The \<^verbatim>\<open>finally\<close> clause runs whether opening, checking and
  extracting raised, the body raised, or nothing did.
\<close>

definition extracted_archive ::
  "string \<Rightarrow> fpath \<Rightarrow> bool \<Rightarrow> (string \<Rightarrow> state \<Rightarrow> (exn + 'a) \<times> state) \<Rightarrow> state
     \<Rightarrow> (exn + 'a) \<times> state" where
  "extracted_archive mkdtemp resolved_archive_file cleanup body s =
     (case mkdir (resolve (cwd s) mkdtemp) (files s) of
        Inl e \<Rightarrow> (Inl e, s)
      | Inr fs \<Rightarrow>
          let tempdir = mkdtemp;
              s1 = logger_info (''Extracting archive file '' @ str_of_path resolved_archive_file
                                 @ '' to temp dir '' @ tempdir) (s\<lparr>files := fs\<rparr>);
              (r, s2) =
                (case tar_open_r resolved_archive_file (files s1) of
                   Inl e \<Rightarrow> (Inl e, s1)
                 | Inr archive \<Rightarrow>
                     (case safe_extract archive tempdir s1 of
                        (Inl e, s') \<Rightarrow> (Inl e, s')
                      | (Inr u, s') \<Rightarrow> body tempdir s'))
          in if cleanup
             then (let s3 = logger_info (''Removing temporary unarchived model dir at ''
                                          @ tempdir) s2
                   in (r, s3\<lparr>files := rmtree (resolve (cwd s3) tempdir) (files s3)\<rparr>))
             else (r, s2))"

text \<open>Reading the text of a file.\<close>

definition read_text :: "filesystem \<Rightarrow> fpath \<Rightarrow> exn + string" where
  "read_text fs p =
     (if is_dir fs p then Inl (IsADirectoryError (str_of_path p))
      else case map_of fs p of
             None \<Rightarrow> Inl (FileNotFoundError (str_of_path p))
           | Some (File t) \<Rightarrow> Inr t
           | Some n \<Rightarrow> Inl (ValueError ''invalid start byte''))"

text \<open>
  \<^verbatim>\<open>load_archive\<close>. The collaborators are parameters: \<open>from_file\<close> is what
  \<^verbatim>\<open>Params.from_file\<close> makes of the text of the configuration file, \<open>json_load\<close> is
  \<^verbatim>\<open>json.load\<close> on the text of the metrics file, and \<open>model_load\<close> is
  \<^verbatim>\<open>VAELmModel.load\<close>, given the files, the configuration, the vocabulary directory, the
  weights file and the device.
\<close>

definition load_archive ::
  "(string \<Rightarrow> exn + 'c) \<Rightarrow> (string \<Rightarrow> exn + 'k)
     \<Rightarrow> (filesystem \<Rightarrow> 'c \<Rightarrow> fpath \<Rightarrow> fpath \<Rightarrow> int \<Rightarrow> exn + 'm)
     \<Rightarrow> string \<Rightarrow> fpath \<Rightarrow> int \<Rightarrow> state \<Rightarrow> (exn + 'm \<times> 'c \<times> 'k) \<times> state" where
  "load_archive from_file json_load model_load mkdtemp archive_file cuda_device s =
     (let s0 = logger_info (''Loading archive file '' @ str_of_path archive_file) s;
          (found, tempdir, s1) =
            (if is_dir (files s0) archive_file then (Inr archive_file, None, s0)
             else (case extracted_archive mkdtemp archive_file False
                          (\<lambda>tempdir st. (Inr tempdir, st)) s0 of
                     (Inl e, st) \<Rightarrow> (Inl e, None, st)
                   | (Inr tempdir, st) \<Rightarrow>
                       (Inr (resolve (cwd st) tempdir), Some tempdir, st)));
          r =
            (case found of
               Inl e \<Rightarrow> Inl e
             | Inr serialization_dir \<Rightarrow>
                 let weights_path = path_div serialization_dir WEIGHTS_NAME in
                 (case read_text (files s1) (path_div serialization_dir CONFIG_NAME) of
                    Inl e \<Rightarrow> Inl e
                  | Inr config_text \<Rightarrow>
                      (case from_file config_text of
                         Inl e \<Rightarrow> Inl e
                       | Inr config \<Rightarrow>
                           (case read_text (files s1)
                                   (path_div serialization_dir METRICS_NAME) of
                              Inl e \<Rightarrow> Inl e
                            | Inr metrics_text \<Rightarrow>
                                (case json_load metrics_text of
                                   Inl e \<Rightarrow> Inl e
                                 | Inr metrics \<Rightarrow>
                                     (case model_load (files s1) config
                                             (path_div serialization_dir ''vocabulary'')
                                             weights_path cuda_device of
                                        Inl e \<Rightarrow> Inl e
                                      | Inr model \<Rightarrow> Inr (model, config, metrics)))))))
      in case tempdir of
           Some t \<Rightarrow>
             (let s2 = logger_info (''Removing temporary unarchived model dir at '' @ t) s1
              in (r, s2\<lparr>files := rmtree (resolve (cwd s2) t) (files s2)\<rparr>))
         | None \<Rightarrow> (r, s1))"

section \<open>The wrapper around a run (\<^verbatim>\<open>training/utils.py\<close>)\<close>




text \<open>
  The configuration (\<^verbatim>\<open>Params\<close>) is a dictionary of values; \<^verbatim>\<open>pop\<close> with a default
  takes a key out, \<^verbatim>\<open>pop\<close> without one raises when the key is missing, and so does
  indexing.
\<close>

datatype cval = CBool bool | CStr string | CList "string list"

type_synonym config = "(string \<times> cval) list"







section \<open>Well-formed names\<close>

text \<open>
  A name that an entry of a directory can bear, and a member name that is the relative path
  made of such names.
\<close>

definition wf_name :: "string \<Rightarrow> bool" where
  "wf_name c = (c \<noteq> [] \<and> c \<noteq> ''.'' \<and> c \<noteq> ''..'' \<and> CHR ''/'' \<notin> set c)"

definition rel_name :: "string \<Rightarrow> string list \<Rightarrow> bool" where
  "rel_name n comps = (comps \<noteq> [] \<and> (\<forall>c \<in> set comps. wf_name c) \<and> n = join_sep ''/'' comps)"

section \<open>Sample inputs\<close>

definition demo_int :: "string \<Rightarrow> exn + int" where
  "demo_int r = (if r = ''3'' then Inr 3 else if r = ''0'' then Inr 0 else Inl (ValueError r))"

definition demo_state :: state where
  "demo_state =
     \<lparr>files = [], cwd = ''/home/u'', environ = [(''LOCAL_RANK'', ''3'')], rank = 0,
      now = \<lparr>day = 4, month = 11, year = 2021, hour = 9, minute = 5, second = 59\<rparr>,
      log = [], batch_handler = None, logger_use_wandb = False, calls = []\<rparr>"

definition demo_fmt4 :: "nat \<Rightarrow> string" where
  "demo_fmt4 n =
     (if n div 10000 < 10 then [digit (n div 10000)] else pad2 (n div 10000))
       @ ''.'' @ pad4 (n mod 10000)"

definition demo_metrics :: "nat metrics" where
  "demo_metrics = [(''loss'', Number 12345), (''acc'', Number 987000)]"

definition demo_heap :: "nat heap" where
  "demo_heap = [[(''acc'', Number 987000), (''loss'', Number 12345), (''kl'', Number 5000)]]"

text \<open>
  A serialization directory \<^verbatim>\<open>/run\<close> with its configuration, a checkpoint
  \<^verbatim>\<open>best-model\<close> and a vocabulary; the same with an archive in it; the same without the
  weights or without the vocabulary.
\<close>

definition demo_files :: filesystem where
  "demo_files =
     [([''tmp''], Dir),
      ([''run''], Dir),
      ([''run'', ''config.json''], File ''{cfg}''),
      ([''run'', ''best-model''], Dir),
      ([''run'', ''best-model'', ''model.pt''], File ''W''),
      ([''run'', ''best-model'', ''metrics.json''], File ''{m}''),
      ([''run'', ''vocabulary''], Dir),
      ([''run'', ''vocabulary'', ''tokens.txt''], File ''a b'')]"


definition sibling_archive :: filesystem where
  "sibling_archive = demo_files @ [([''run'', ''model.tar.gz''],
       Archive [(''config.json'', File ''c''), (''../tmpabc/evil'', File ''x'')])]"


definition no_weights_files :: filesystem where
  "no_weights_files = filter (\<lambda>(q, n). q \<noteq> [''run'', ''best-model'', ''model.pt'']) demo_files"

definition no_vocabulary_files :: filesystem where
  "no_vocabulary_files = filter (\<lambda>(q, n). \<not> is_under [''run'', ''vocabulary''] q) demo_files"









section \<open>Properties of the rank gate\<close>

text \<open>
  C7. The rank is looked up under \<^verbatim>\<open>RANK\<close> first and under \<^verbatim>\<open>LOCAL_RANK\<close> second,
  and is 0 when neither is set. Importing the module stores it in the attribute
  \<^verbatim>\<open>run_on_rank_zero.rank\<close>, which a later change of the environment leaves as it is. The
  process is primary exactly when the stored rank is 0; the gated function runs, and its result or
  its exception is handed on, exactly when the stored rank is 0, and otherwise the wrapper returns
  \<^verbatim>\<open>None\<close> and leaves the state untouched.
\<close>

theorem rank_gate:
  fixes func :: "state \<Rightarrow> (exn + 'a) \<times> state"
  shows
    "(map_of env ''RANK'' = Some r \<longrightarrow> get_rank py_int env = py_int r)
     \<and> (map_of env ''RANK'' = None \<and> map_of env ''LOCAL_RANK'' = Some r
          \<longrightarrow> get_rank py_int env = py_int r)
     \<and> (map_of env ''RANK'' = None \<and> map_of env ''LOCAL_RANK'' = None
          \<longrightarrow> get_rank py_int env = Inr 0)
     \<and> (import_base py_int s0 = Inr s
          \<longrightarrow> get_rank py_int (environ s0) = Inr (rank s) \<and> rank (setenv k v s) = rank s)
     \<and> (is_primary s \<longleftrightarrow> rank s = 0)
     \<and> (rank s = 0 \<longrightarrow>
          run_on_rank_zero func s =
            (case func s of (Inl e, s') \<Rightarrow> (Inl e, s') | (Inr x, s') \<Rightarrow> (Inr (Some x), s')))
     \<and> (rank s \<noteq> 0 \<longrightarrow> run_on_rank_zero func s = (Inr None, s))"
proof -
  have imp: "import_base py_int s0 = Inr s \<Longrightarrow> get_rank py_int (environ s0) = Inr (rank s)"
    by (auto simp: import_base_def split: sum.splits)
  show ?thesis
    using imp
    by (simp add: get_rank_def rank_keys_def setenv_def is_primary_def run_on_rank_zero_def)
qed

text \<open>
  A process started with \<^verbatim>\<open>LOCAL_RANK=3\<close> only: the rank is 3, setting \<^verbatim>\<open>RANK\<close> afterwards
  does not change it, and a gated function that would raise is not run.
\<close>

theorem rank_gate_witness:
  "get_rank demo_int (environ demo_state) = Inr 3
   \<and> import_base demo_int demo_state = Inr (demo_state\<lparr>rank := 3\<rparr>)
   \<and> rank (setenv ''RANK'' ''0'' (demo_state\<lparr>rank := 3\<rparr>)) = 3
   \<and> \<not> is_primary (demo_state\<lparr>rank := 3\<rparr>)
   \<and> run_on_rank_zero (\<lambda>s. (Inl KeyboardInterrupt :: exn + unit, s)) (demo_state\<lparr>rank := 3\<rparr>)
       = (Inr None, demo_state\<lparr>rank := 3\<rparr>)
   \<and> run_on_rank_zero (\<lambda>s. (Inr (7::int), setenv ''A'' ''b'' s)) demo_state
       = (Inr (Some 7), setenv ''A'' ''b'' demo_state)"
proof -
  have i: "import_base demo_int demo_state = Inr (demo_state\<lparr>rank := 3\<rparr>)"
    by (simp add: import_base_def get_rank_def rank_keys_def demo_int_def demo_state_def)
  have e: "map_of (environ demo_state) ''RANK'' = None
           \<and> map_of (environ demo_state) ''LOCAL_RANK'' = Some ''3''"
    by (simp add: demo_state_def)
  have n: "rank (demo_state\<lparr>rank := 3\<rparr>) \<noteq> 0" by simp
  have z: "rank demo_state = 0" by (simp add: demo_state_def)
  note g = rank_gate [where env = "environ demo_state" and r = "''3''" and py_int = demo_int
      and ?s0.0 = demo_state and s = "demo_state\<lparr>rank := 3\<rparr>" and k = "''RANK''" and v = "''0''"
      and func = "\<lambda>s. (Inl KeyboardInterrupt :: exn + unit, s)"]
  note h = rank_gate [where env = "[]" and py_int = demo_int and s = demo_state
      and func = "\<lambda>s. (Inr (7::int), setenv ''A'' ''b'' s)"]
  from g e i n have
    "get_rank demo_int (environ demo_state) = Inr 3
     \<and> rank (setenv ''RANK'' ''0'' (demo_state\<lparr>rank := 3\<rparr>)) = 3
     \<and> \<not> is_primary (demo_state\<lparr>rank := 3\<rparr>)
     \<and> run_on_rank_zero (\<lambda>s. (Inl KeyboardInterrupt :: exn + unit, s)) (demo_state\<lparr>rank := 3\<rparr>)
         = (Inr None, demo_state\<lparr>rank := 3\<rparr>)"
    by (simp add: demo_int_def)
  moreover from h z have
    "run_on_rank_zero (\<lambda>s. (Inr (7::int), setenv ''A'' ''b'' s)) demo_state
       = (Inr (Some 7), setenv ''A'' ''b'' demo_state)"
    by simp
  ultimately show ?thesis using i by simp
qed

section \<open>Properties of the metrics functions\<close>

lemma log_logger_emit: "log (logger_emit l ex m s) = log s @ [(l, m)]"
  by (auto simp: logger_emit_def Let_def run_on_rank_zero_def SaveBatchHandler_emit_def
      WandBLoggingHandler_emit_def split: option.splits sum.splits prod.splits)

lemma logger_info_eq: "logger_info m s = s\<lparr>log := log s @ [(INFO, m)]\<rparr>"
  by (simp add: logger_info_def logger_emit_def no_extras_def has_attr_batch_def
      has_attr_metrics_def Let_def split: option.splits)

lemma fold_log_metric_line:
  "\<forall>k \<in> set ks. \<exists>v. map_of metrics k = Some (Number v) \<Longrightarrow>
   fold (log_metric_line fmt4 metrics L) ks s =
     s\<lparr>log := log s @ map (\<lambda>k. (INFO, ljust k L @ '' | '' @
            (case map_of metrics k of Some (Number v) \<Rightarrow> fmt4 v | _ \<Rightarrow> []))) ks\<rparr>"
proof (induction ks arbitrary: s)
  case Nil
  then show ?case by simp
next
  case (Cons k ks)
  then obtain v where v: "map_of metrics k = Some (Number v)" by auto
  have "fold (log_metric_line fmt4 metrics L) (k # ks) s =
        fold (log_metric_line fmt4 metrics L) ks (logger_info (ljust k L @ '' | '' @ fmt4 v) s)"
    by (simp add: log_metric_line_def v)
  also have "\<dots> = (logger_info (ljust k L @ '' | '' @ fmt4 v) s)\<lparr>log := log (logger_info (ljust k L @ '' | '' @ fmt4 v) s) @ map (\<lambda>k. (INFO, ljust k L @ '' | '' @
            (case map_of metrics k of Some (Number v) \<Rightarrow> fmt4 v | _ \<Rightarrow> []))) ks\<rparr>"
    using Cons by simp
  finally show ?case by (simp add: logger_info_eq v)
qed

lemma py_max_Max:
  assumes "xs \<noteq> []"
  shows "py_max xs = Inr (Max (set xs))"
proof (cases xs)
  case Nil
  with assms show ?thesis by simp
next
  case (Cons y ys)
  have "fold max ys y = Max (set (y # ys))" by (rule Max.set_eq_fold [symmetric])
  with Cons show ?thesis by (simp add: py_max_def)
qed

text \<open>
  C8. On the primary rank, for a non-empty dictionary of metrics whose values are all numbers,
  \<^verbatim>\<open>log_metrics\<close> returns normally and logs, after the header line, one line per key: the
  keys come in ascending order of the pair (length of the name, name), each key once, and each key
  is followed by blanks up to the length of the longest key of the dictionary.
\<close>

theorem log_metrics_sorted_padded:
  assumes r: "rank s = 0" and ne: "metrics \<noteq> []" and d: "distinct (map fst metrics)"
    and num: "\<forall>v \<in> snd ` set metrics. v \<noteq> Object"
  shows
    "let ks = sort_key (\<lambda>x. (length x, x)) (map fst metrics);
         L = Max (length ` fst ` set metrics)
     in fst (log_metrics fmt4 mode_str metrics info s) = Inr (Some ())
        \<and> log (snd (log_metrics fmt4 mode_str metrics info s)) =
            log s @ [(INFO, info_line mode_str info)]
              @ map (\<lambda>k. (INFO, ljust k L @ '' | '' @
                      (case map_of metrics k of Some (Number v) \<Rightarrow> fmt4 v | _ \<Rightarrow> []))) ks
              @ [(DEBUG, ''Logging metrics to additional sources.'')]
        \<and> sorted (map (\<lambda>k. (length k, k)) ks) \<and> distinct ks \<and> set ks = fst ` set metrics
        \<and> (\<forall>k \<in> set ks. length (ljust k L) = L \<and> take (length k) (ljust k L) = k
              \<and> set (drop (length k) (ljust k L)) \<subseteq> {CHR '' ''})"
proof -
  define ks where "ks = sort_key (\<lambda>x. (length x, x)) (map fst metrics)"
  define L where "L = Max (length ` fst ` set metrics)"
  have set_ks: "set ks = fst ` set metrics" by (simp add: ks_def)
  have mx: "py_max (map length (map fst metrics)) = Inr L"
    using ne by (simp add: py_max_Max L_def image_image)
  have allnum: "\<forall>k \<in> set ks. \<exists>v. map_of metrics k = Some (Number v)"
  proof
    fix k assume "k \<in> set ks"
    then obtain v where kv: "(k, v) \<in> set metrics" using set_ks by auto
    then have "map_of metrics k = Some v" using d by simp
    moreover have "v \<noteq> Object" using num kv by force
    ultimately show "\<exists>v. map_of metrics k = Some (Number v)" by (cases v) auto
  qed
  have len: "\<forall>k \<in> set ks. length k \<le> L"
    unfolding L_def set_ks by (auto intro!: Max_ge)
  have body: "log_metrics_body fmt4 mode_str metrics info s =
      (Inr (), logger_emit DEBUG
                   (no_extras\<lparr>ex_metrics :=
                      Some (map (\<lambda>(k, v). lower mode_str @ ''/'' @ k) metrics)\<rparr>)
                   ''Logging metrics to additional sources.''
                (fold (log_metric_line fmt4 metrics L) ks (logger_info (info_line mode_str info) s)))"
    unfolding log_metrics_body_def mx Let_def ks_def by simp
  have 1: "fst (log_metrics fmt4 mode_str metrics info s) = Inr (Some ())"
    by (simp add: log_metrics_def run_on_rank_zero_def r body)
  have 2: "log (snd (log_metrics fmt4 mode_str metrics info s)) =
            log s @ [(INFO, info_line mode_str info)]
              @ map (\<lambda>k. (INFO, ljust k L @ '' | '' @
                      (case map_of metrics k of Some (Number v) \<Rightarrow> fmt4 v | _ \<Rightarrow> []))) ks
              @ [(DEBUG, ''Logging metrics to additional sources.'')]"
    by (simp add: log_metrics_def run_on_rank_zero_def r body log_logger_emit
        fold_log_metric_line [OF allnum] logger_info_eq)
  have 3: "sorted (map (\<lambda>k. (length k, k)) ks)" by (simp add: ks_def)
  have 4: "distinct ks" using d by (simp add: ks_def)
  have 5: "\<forall>k \<in> set ks. length (ljust k L) = L \<and> take (length k) (ljust k L) = k
              \<and> set (drop (length k) (ljust k L)) \<subseteq> {CHR '' ''}"
    using len by (auto simp: ljust_def)
  show ?thesis
    using 1 2 3 4 5 set_ks unfolding Let_def ks_def [symmetric] L_def [symmetric] by blast
qed

text \<open>
  The dictionary \<^verbatim>\<open>{"loss": 1.2345, "acc": 98.7}\<close> (numbers in ten-thousandths): \<^verbatim>\<open>acc\<close>
  comes first, padded to the four characters of \<^verbatim>\<open>loss\<close>.
\<close>

theorem log_metrics_sorted_padded_witness:
  "log (snd (log_metrics demo_fmt4 ''Train'' demo_metrics None demo_state)) =
     [(INFO, ''Train''), (INFO, ''acc  | 98.7000''), (INFO, ''loss | 1.2345''),
      (DEBUG, ''Logging metrics to additional sources.'')]"
proof -
  have h: "rank demo_state = 0" "demo_metrics \<noteq> []" "distinct (map fst demo_metrics)"
    "\<forall>v \<in> snd ` set demo_metrics. v \<noteq> Object"
    by (simp_all add: demo_state_def demo_metrics_def)
  have L: "Max (length ` fst ` set demo_metrics) = 4" by (simp add: demo_metrics_def)
  have ks: "sort_key (\<lambda>x. (length x, x)) (map fst demo_metrics) = [''acc'', ''loss'']"
    by (simp add: demo_metrics_def)
  from log_metrics_sorted_padded [OF h, of demo_fmt4 "''Train''" None]
  show ?thesis
    unfolding Let_def L ks 
    by (simp add: demo_state_def demo_metrics_def info_line_def ljust_def demo_fmt4_def pad2_def pad4_def digit_def)
qed

text \<open>
  C10. On the primary rank \<^verbatim>\<open>log_metrics\<close> with an empty dictionary logs its header line and
  then raises the \<^verbatim>\<open>ValueError\<close> of \<^verbatim>\<open>max\<close> over an empty sequence. On any other rank
  it returns \<^verbatim>\<open>None\<close> and leaves the state as it was, whatever the dictionary.
\<close>

theorem log_metrics_empty:
  "(rank s = 0 \<longrightarrow>
      log_metrics fmt4 mode_str [] info s =
        (Inl (ValueError ''max() arg is an empty sequence''),
         s\<lparr>log := log s @ [(INFO, info_line mode_str info)]\<rparr>))
   \<and> (rank s \<noteq> 0 \<longrightarrow> log_metrics fmt4 mode_str metrics info s = (Inr None, s))"
  by (simp add: log_metrics_def run_on_rank_zero_def log_metrics_body_def py_max_def
      logger_info_eq)


theorem log_metrics_empty_witness:
  "log_metrics demo_fmt4 ''Train'' [] None demo_state =
     (Inl (ValueError ''max() arg is an empty sequence''),
      demo_state\<lparr>log := [(INFO, ''Train'')]\<rparr>)
   \<and> log_metrics demo_fmt4 ''Train'' [] None (demo_state\<lparr>rank := 3\<rparr>)
       = (Inr None, demo_state\<lparr>rank := 3\<rparr>)"
proof -
  have z: "rank demo_state = 0" by (simp add: demo_state_def)
  have n: "rank (demo_state\<lparr>rank := 3\<rparr>) \<noteq> 0" by simp
  from log_metrics_empty [of demo_state demo_fmt4 "''Train''" None] z
  have "log_metrics demo_fmt4 ''Train'' [] None demo_state =
     (Inl (ValueError ''max() arg is an empty sequence''),
      demo_state\<lparr>log := [(INFO, ''Train'')]\<rparr>)"
    by (simp add: info_line_def demo_state_def)
  moreover from log_metrics_empty [of "demo_state\<lparr>rank := 3\<rparr>" demo_fmt4 "''Train''" None "[]"] n
  have "log_metrics demo_fmt4 ''Train'' [] None (demo_state\<lparr>rank := 3\<rparr>)
       = (Inr None, demo_state\<lparr>rank := 3\<rparr>)"
    by simp
  ultimately show ?thesis by simp
qed

lemma format_items_numbers:
  "\<forall>v \<in> snd ` set items. v \<noteq> Object \<Longrightarrow>
   format_items fmt4 items =
     Inr (map (\<lambda>(name, v). name @ '': '' @ (case v of Number x \<Rightarrow> fmt4 x | Object \<Rightarrow> [])) items)"
proof (induction items)
  case Nil
  then show ?case by simp
next
  case (Cons a items)
  obtain name v where a: "a = (name, v)" by (cases a)
  with Cons.prems obtain x where v: "v = Number x" by (cases v) auto
  from Cons show ?case by (simp add: a v format4_def)
qed

text \<open>
  C9. For a dictionary that has the key \<^verbatim>\<open>loss\<close>, \<^verbatim>\<open>description_from_metrics\<close> leaves every
  object that existed before the call as it was, the caller's dictionary among them: the
  \<^verbatim>\<open>pop\<close> goes to the copy. When all values are numbers it returns the description: the loss
  first, then the other items in the order of the dictionary.
\<close>

theorem description_from_metrics_frame:
  assumes r: "metrics < length h"
    and loss: "''loss'' \<in> fst ` set (h ! metrics)"
  shows
    "take (length h) (snd (description_from_metrics fmt4 metrics h)) = h
     \<and> snd (description_from_metrics fmt4 metrics h) ! metrics = h ! metrics
     \<and> ((\<forall>v \<in> snd ` set (h ! metrics). v \<noteq> Object) \<longrightarrow>
          fst (description_from_metrics fmt4 metrics h) =
            Inr (''loss: ''
                 @ (case map_of (h ! metrics) ''loss'' of Some (Number x) \<Rightarrow> fmt4 x | _ \<Rightarrow> [])
                 @ '', ''
                 @ join_sep '', ''
                     (map (\<lambda>(name, v). name @ '': ''
                             @ (case v of Number x \<Rightarrow> fmt4 x | Object \<Rightarrow> []))
                        (AList.delete ''loss'' (h ! metrics)))
                 @ '' ||''))"
proof -
  from loss obtain v where v: "map_of (h ! metrics) ''loss'' = Some v"
    by (metis domD dom_map_of_conv_image_fst)
  have pop: "dict_pop (length h) ''loss'' (h @ [h ! metrics]) =
      (Inr v, h @ [AList.delete ''loss'' (h ! metrics)])"
    by (simp add: dict_pop_def v)
  have frame: "take (length h) (snd (description_from_metrics fmt4 metrics h)) = h"
    by (simp add: description_from_metrics_def deepcopy_def pop split: sum.splits)
  have same: "snd (description_from_metrics fmt4 metrics h) ! metrics = h ! metrics"
    using r by (simp add: description_from_metrics_def deepcopy_def pop nth_append split: sum.splits)
  have tx: "fst (description_from_metrics fmt4 metrics h) =
            Inr (''loss: ''
                 @ (case map_of (h ! metrics) ''loss'' of Some (Number x) \<Rightarrow> fmt4 x | _ \<Rightarrow> [])
                 @ '', ''
                 @ join_sep '', ''
                     (map (\<lambda>(name, v). name @ '': ''
                             @ (case v of Number x \<Rightarrow> fmt4 x | Object \<Rightarrow> []))
                        (AList.delete ''loss'' (h ! metrics)))
                 @ '' ||'')"
    if num: "\<forall>v \<in> snd ` set (h ! metrics). v \<noteq> Object"
  proof -
    have "v \<in> snd ` set (h ! metrics)" using v by (force dest: map_of_SomeD)
    with num obtain x where x: "v = Number x" by (cases v) auto
    have "\<forall>v \<in> snd ` set (AList.delete ''loss'' (h ! metrics)). v \<noteq> Object"
      using num by (auto simp: AList.delete_eq)
    from format_items_numbers [OF this, of fmt4] show ?thesis
      by (simp add: description_from_metrics_def deepcopy_def pop x v format4_def)
  qed
  from frame same tx show ?thesis by blast
qed

theorem description_from_metrics_frame_witness:
  "description_from_metrics demo_fmt4 0 demo_heap =
     (Inr ''loss: 1.2345, acc: 98.7000, kl: 0.5000 ||'',
      demo_heap @ [[(''acc'', Number 987000), (''kl'', Number 5000)]])"
proof -
  have h: "0 < length demo_heap" "''loss'' \<in> fst ` set (demo_heap ! 0)"
    by (simp_all add: demo_heap_def)
  have n: "\<forall>v \<in> snd ` set (demo_heap ! 0). v \<noteq> Object" by (simp add: demo_heap_def)
  have s: "snd (description_from_metrics demo_fmt4 0 demo_heap) =
    demo_heap @ [[(''acc'', Number 987000), (''kl'', Number 5000)]]"
    by (simp add: description_from_metrics_def deepcopy_def dict_pop_def demo_heap_def format4_def
      AList.delete_eq split: sum.splits)
  from description_from_metrics_frame [OF h, of demo_fmt4] n
  have "fst (description_from_metrics demo_fmt4 0 demo_heap) =
      Inr ''loss: 1.2345, acc: 98.7000, kl: 0.5000 ||''"
    by (simp add: demo_heap_def AList.delete_eq demo_fmt4_def pad2_def pad4_def digit_def)
  with s show ?thesis by (simp add: prod_eq_iff)
qed

section \<open>Properties of the archive functions\<close>

lemma logger_error_eq: "logger_error m s = s\<lparr>log := log s @ [(ERROR, m)]\<rparr>"
  by (simp add: logger_error_def logger_emit_def no_extras_def has_attr_batch_def
      has_attr_metrics_def Let_def split: option.splits)


text \<open>
  C1, as the code has it. \<^verbatim>\<open>archive_model\<close> looks for the weights file and then for the
  metrics file under the weights directory before it opens anything. When one of them is missing
  it logs an error that names the missing file and returns to its caller without raising; no
  file is created or changed, so there is no output at the archive path.
\<close>

theorem archive_model_missing_weights_or_metrics:
  assumes "\<not> path_exists (files s) (path_div weights ''model.pt'')
           \<or> \<not> path_exists (files s) (path_div weights METRICS_NAME)"
  shows
    "archive_model serialization_dir weights archive_path s =
       (Inr (),
        s\<lparr>log := log s @
           [(ERROR,
             (if \<not> path_exists (files s) (path_div weights ''model.pt'')
              then ''weights file '' @ str_of_path (path_div weights ''model.pt'')
              else ''metrics file '' @ str_of_path (path_div weights METRICS_NAME))
             @ '' does not exist, unable to archive model.'')]\<rparr>)
     \<and> files (snd (archive_model serialization_dir weights archive_path s)) = files s"
  using assms by (auto simp: archive_model_def logger_error_eq Let_def)

theorem archive_model_missing_weights_or_metrics_witness:
  "archive_model [''run''] [''run'', ''best-model''] None (demo_state\<lparr>files := no_weights_files\<rparr>)
     = (Inr (),
        demo_state\<lparr>files := no_weights_files,
          log := [(ERROR, ''weights file /run/best-model/model.pt does not exist, unable to archive model.'')]\<rparr>)
   \<and> map_of no_weights_files [''run'', ''model.tar.gz''] = None"
proof -
  let ?s = "demo_state\<lparr>files := no_weights_files\<rparr>"
  have h: "\<not> path_exists (files ?s) (path_div [''run'', ''best-model''] ''model.pt'')"
    by code_simp
  have n: "map_of no_weights_files [''run'', ''model.tar.gz''] = None" by code_simp
  have l: "log ?s = []" "str_of_path (path_div [''run'', ''best-model''] ''model.pt'')
     = ''/run/best-model/model.pt''" by code_simp+
  from archive_model_missing_weights_or_metrics [of ?s "[''run'', ''best-model'']" "[''run'']" None] h
  show ?thesis using n l by simp
qed

text \<open>
  Against C1 as stated. Without the weights file the call returns normally: no failure reaches the
  caller. Without the vocabulary, which is not looked for beforehand, the archive is opened and
  receives three members before \<^verbatim>\<open>archive.add\<close> raises: a file is left at the archive
  path, where there was none.
\<close>

theorem archive_model_not_all_or_nothing:
  "fst (archive_model [''run''] [''run'', ''best-model''] None
          (demo_state\<lparr>files := no_weights_files\<rparr>)) = Inr ()
   \<and> map_of no_vocabulary_files [''run'', ''vocabulary''] = None
   \<and> map_of no_vocabulary_files [''run'', ''model.tar.gz''] = None
   \<and> fst (archive_model [''run''] [''run'', ''best-model''] None
          (demo_state\<lparr>files := no_vocabulary_files\<rparr>)) = Inl (FileNotFoundError ''/run/vocabulary'')
   \<and> map_of (files (snd (archive_model [''run''] [''run'', ''best-model''] None
          (demo_state\<lparr>files := no_vocabulary_files\<rparr>)))) [''run'', ''model.tar.gz'']
       = Some (Archive [(''config.json'', File ''{cfg}''), (''weights.pt'', File ''W''),
                        (''metrics.json'', File ''{m}'')])"
  by code_simp

text \<open>
  C2 fails on the code. \<^verbatim>\<open>is_within_directory\<close> compares characters: a member named
  \<^verbatim>\<open>../tmpabc/evil\<close>, extracted for the temporary directory \<^verbatim>\<open>/tmp/tmpab\<close>, passes
  the check although it resolves to \<^verbatim>\<open>/tmp/tmpabc/evil\<close>, outside the directory, and is
  written there.
\<close>

theorem safe_extract_sibling_prefix:
  "check_members ''/home/u'' ''/tmp/tmpab'' [(''../tmpabc/evil'', File ''x'')] = Inr ()
   \<and> \<not> is_under (resolve ''/home/u'' ''/tmp/tmpab'')
           (resolve ''/home/u'' (path_join ''/tmp/tmpab'' ''../tmpabc/evil''))
   \<and> fst (extracted_archive ''/tmp/tmpab'' [''run'', ''model.tar.gz''] True
            (\<lambda>tempdir st. (Inr tempdir, st)) (demo_state\<lparr>files := sibling_archive\<rparr>))
       = Inr ''/tmp/tmpab''
   \<and> map_of (files (snd (extracted_archive ''/tmp/tmpab'' [''run'', ''model.tar.gz''] True
            (\<lambda>tempdir st. (Inr tempdir, st)) (demo_state\<lparr>files := sibling_archive\<rparr>))))
        [''tmp'', ''tmpabc'', ''evil''] = Some (File ''x'')"
  by code_simp





section \<open>Properties of the wrapper around a run\<close>

lemma files_logger_plain [simp]:
  "files (logger_info m s) = files s" "files (logger_error m s) = files s"
  by (simp_all add: logger_info_eq logger_error_eq)




















section \<open>Packing and unpacking\<close>

lemma split_sep_no_slash: "CHR ''/'' \<notin> set c \<Longrightarrow> split_sep c = [c]"
  by (induction c) auto

lemma split_sep_append:
  "CHR ''/'' \<notin> set c \<Longrightarrow> split_sep (c @ CHR ''/'' # r) = c # split_sep r"
  by (induction c) auto

lemma split_join:
  "comps \<noteq> [] \<Longrightarrow> \<forall>c \<in> set comps. CHR ''/'' \<notin> set c \<Longrightarrow>
     split_sep (join_sep ''/'' comps) = comps"
proof (induction comps rule: induct_list012)
  case 1
  then show ?case by simp
next
  case (2 x)
  then show ?case by (simp add: split_sep_no_slash)
next
  case (3 x y ys)
  then have "split_sep (join_sep ''/'' (y # ys)) = y # ys" by simp
  moreover have "CHR ''/'' \<notin> set x" using 3 by simp
  ultimately show ?case using split_sep_append [of x "join_sep ''/'' (y # ys)"] by simp
qed

lemma norm_comps_wf:
  "\<forall>c \<in> set comps. wf_name c \<Longrightarrow> norm_comps b acc comps = acc @ comps"
  by (induction comps arbitrary: acc) (auto simp: wf_name_def)

lemma join_sep_append:
  "a \<noteq> [] \<Longrightarrow> b \<noteq> [] \<Longrightarrow> join_sep sep (a @ b) = join_sep sep a @ sep @ join_sep sep b"
proof (induction a rule: induct_list012)
  case 1
  then show ?case by simp
next
  case (2 x)
  then show ?case by (cases b) simp_all
next
  case (3 x y ys)
  then show ?case by simp
qed

lemma join_sep_Cons:
  "b \<noteq> [] \<Longrightarrow> join_sep sep (x # b) = x @ sep @ join_sep sep b"
  by (cases b) simp_all

lemma hd_join_sep:
  "comps \<noteq> [] \<Longrightarrow> \<forall>c \<in> set comps. wf_name c \<Longrightarrow>
     \<exists>a r. join_sep ''/'' comps = a # r \<and> a \<noteq> CHR ''/''"
proof (induction comps rule: induct_list012)
  case 1
  then show ?case by simp
next
  case (2 x)
  then show ?case by (cases x) (auto simp: wf_name_def)
next
  case (3 x y ys)
  then show ?case by (cases x) (auto simp: wf_name_def)
qed

lemma normpath_str_of_path:
  assumes "comps \<noteq> []" "\<forall>c \<in> set comps. wf_name c"
  shows "normpath (str_of_path comps) = str_of_path comps"
proof -
  obtain a r where j: "join_sep ''/'' comps = a # r" "a \<noteq> CHR ''/''"
    using hd_join_sep [OF assms] by blast
  have sp: "split_sep (str_of_path comps) = [] # comps"
    using split_join [OF assms(1)] assms(2) by (simp add: str_of_path_def wf_name_def)
  show ?thesis
    unfolding normpath_def Let_def sp
    using j by (simp add: str_of_path_def startswith_def norm_comps_wf [OF assms(2)])
qed

lemma resolve_str_of_path:
  assumes "comps \<noteq> []" "\<forall>c \<in> set comps. wf_name c"
  shows "resolve wd (str_of_path comps) = comps"
proof -
  have sp: "split_sep (str_of_path comps) = [] # comps"
    using split_join [OF assms(1)] assms(2) by (simp add: str_of_path_def wf_name_def)
  have ne: "filter (\<lambda>c. c \<noteq> []) comps = comps"
    using assms(2) by (auto simp: wf_name_def filter_id_conv)
  have ab: "abspath wd (str_of_path comps) = str_of_path comps"
    using normpath_str_of_path [OF assms]
    by (simp add: abspath_def isabs_def startswith_def str_of_path_def)
  show ?thesis by (simp add: resolve_def ab sp ne)
qed

lemma common_run_append: "common_run t (t @ x) = t"
  by (induction t) auto

lemma le_append: "(t :: string) \<le> t @ x"
  by (induction t) simp_all

lemma commonprefix_append: "commonprefix [t, t @ x] = t"
  using le_append [of t x] common_run_append [of t x] common_run_append [of t "[]"]
  by (auto simp: commonprefix_def min_def max_def)


lemma last_join_sep:
  "comps \<noteq> [] \<Longrightarrow> \<forall>c \<in> set comps. wf_name c \<Longrightarrow>
     join_sep ''/'' comps \<noteq> [] \<and> last (join_sep ''/'' comps) \<noteq> CHR ''/''"
proof (induction comps rule: induct_list012)
  case 1
  then show ?case by simp
next
  case (2 x)
  then have "x \<noteq> []" "CHR ''/'' \<notin> set x" by (simp_all add: wf_name_def)
  moreover from this have "last x \<in> set x" by simp
  ultimately show ?case by (metis join_sep.simps(2))
next
  case (3 x y ys)
  then show ?case by simp
qed

lemma path_join_rel:
  assumes t: "tparts \<noteq> []" "\<forall>c \<in> set tparts. wf_name c"
    and c: "comps \<noteq> []" "\<forall>c \<in> set comps. wf_name c"
  shows "path_join (str_of_path tparts) (join_sep ''/'' comps) = str_of_path (tparts @ comps)"
proof -
  obtain a r where j: "join_sep ''/'' comps = a # r" "a \<noteq> CHR ''/''"
    using hd_join_sep [OF c] by blast
  have l: "last (str_of_path tparts) \<noteq> CHR ''/''"
    using last_join_sep [OF t] by (simp add: str_of_path_def)
  show ?thesis
    using j l by (simp add: path_join_def startswith_def str_of_path_def
        join_sep_append [OF t(1) c(1)])
qed

lemma within_rel:
  assumes t: "tparts \<noteq> []" "\<forall>c \<in> set tparts. wf_name c"
    and c: "comps \<noteq> []" "\<forall>c \<in> set comps. wf_name c"
  shows "is_within_directory wd (str_of_path tparts)
           (path_join (str_of_path tparts) (join_sep ''/'' comps))"
proof -
  have tc: "tparts @ comps \<noteq> []" "\<forall>c \<in> set (tparts @ comps). wf_name c"
    using t c by auto
  have a1: "abspath wd (str_of_path tparts) = str_of_path tparts"
    using normpath_str_of_path [OF t]
    by (simp add: abspath_def isabs_def startswith_def str_of_path_def)
  have a2: "abspath wd (str_of_path (tparts @ comps)) = str_of_path (tparts @ comps)"
    using normpath_str_of_path [OF tc]
    by (simp add: abspath_def isabs_def startswith_def str_of_path_def)
  have ap: "str_of_path (tparts @ comps) = str_of_path tparts @ ''/'' @ join_sep ''/'' comps"
    by (simp add: str_of_path_def join_sep_append [OF t(1) c(1)])
  show ?thesis
    unfolding is_within_directory_def Let_def path_join_rel [OF t c] a1 a2
    unfolding ap by (rule commonprefix_append)
qed

lemma resolve_rel:
  assumes t: "tparts \<noteq> []" "\<forall>c \<in> set tparts. wf_name c"
    and c: "comps \<noteq> []" "\<forall>c \<in> set comps. wf_name c"
  shows "resolve wd (path_join (str_of_path tparts) (join_sep ''/'' comps)) = tparts @ comps"
proof -
  have tc: "tparts @ comps \<noteq> []" "\<forall>c \<in> set (tparts @ comps). wf_name c"
    using t c by auto
  show ?thesis
    unfolding path_join_rel [OF t c] by (rule resolve_str_of_path [OF tc])
qed

lemma check_members_rel:
  assumes t: "tparts \<noteq> []" "\<forall>c \<in> set tparts. wf_name c"
    and m: "\<forall>(n, x) \<in> set ms. \<exists>comps. rel_name n comps"
  shows "check_members wd (str_of_path tparts) ms = Inr ()"
  using m
proof (induction ms)
  case Nil
  then show ?case by simp
next
  case (Cons a ms)
  obtain n x where a: "a = (n, x)" by (cases a)
  with Cons.prems obtain comps where "rel_name n comps" by auto
  then have "is_within_directory wd (str_of_path tparts) (path_join (str_of_path tparts) n)"
    using within_rel [OF t] by (simp add: rel_name_def)
  with Cons show ?case by (simp add: a)
qed

lemma map_of_makedirs:
  "map_of fs k \<noteq> None \<Longrightarrow> map_of (makedirs ds fs) k = map_of fs k"
proof (induction ds arbitrary: fs)
  case Nil
  then show ?case by (simp add: makedirs_def)
next
  case (Cons a ds)
  let ?fs = "if path_exists fs a then fs else AList.update a Dir fs"
  have e: "map_of ?fs k = map_of fs k"
    using Cons.prems by (auto simp: path_exists_def update_conv')
  have "map_of (makedirs ds ?fs) k = map_of ?fs k"
    using Cons.prems e by (intro Cons.IH) simp
  with e show ?case by (simp add: makedirs_def)
qed

lemma map_of_write_member:
  "map_of (write_member target n fs) target = Some n"
  "k \<noteq> target \<Longrightarrow> map_of fs k \<noteq> None \<Longrightarrow> map_of (write_member target n fs) k = map_of fs k"
  by (simp_all add: write_member_def update_conv' map_of_makedirs)

lemma extractall_Cons:
  "extractall wd t ((n, x) # ms) fs =
     extractall wd t ms (write_member (resolve wd (path_join t n)) x fs)"
  by (simp add: extractall_def)

lemma extractall_other:
  "\<forall>(n, x) \<in> set ms. resolve wd (path_join t n) \<noteq> k \<Longrightarrow> map_of fs k \<noteq> None \<Longrightarrow>
     map_of (extractall wd t ms fs) k = map_of fs k"
proof (induction ms arbitrary: fs)
  case Nil
  then show ?case by (simp add: extractall_def)
next
  case (Cons a ms)
  obtain n x where a: "a = (n, x)" by (cases a)
  let ?fs = "write_member (resolve wd (path_join t n)) x fs"
  have k: "resolve wd (path_join t n) \<noteq> k" using Cons.prems(1) by (simp add: a)
  have e: "map_of ?fs k = map_of fs k"
    using k Cons.prems(2) by (simp add: map_of_write_member)
  have "map_of (extractall wd t ms ?fs) k = map_of ?fs k"
    using Cons.prems e by (intro Cons.IH) (simp_all add: a)
  with e show ?case by (simp add: a extractall_Cons)
qed


lemma archive_add_file:
  assumes "name \<noteq> af" "map_of fs name = Some (File c)" "map_of fs af = Some (Archive ms)"
  shows "archive_add af name arcname fs =
           Inr (AList.update af (Archive (ms @ [(arcname, File c)])) fs)"
  using assms by (simp add: archive_add_def tar_add_def)

lemma archive_add_tree:
  assumes "name \<noteq> af" "map_of fs name = Some n" "map_of fs af = Some (Archive ms)"
  shows "\<exists>vms. archive_add af name arcname fs = Inr (AList.update af (Archive (ms @ vms)) fs)
           \<and> (\<forall>(nm, x) \<in> set vms. nm = arcname
                 \<or> (\<exists>q \<in> fst ` set fs. is_under name q \<and> q \<noteq> name \<and> q \<noteq> af
                       \<and> nm = arcname @ ''/'' @ join_sep ''/'' (drop (length name) q)))"
proof (cases "n = Dir")
  case True
  let ?vms = "(arcname, Dir)
                # map (\<lambda>(q, n). (arcname @ ''/'' @ join_sep ''/'' (drop (length name) q), n))
                    (sort_key fst
                       (filter (\<lambda>(q, n). is_under name q \<and> q \<noteq> name \<and> q \<noteq> af) fs))"
  have "archive_add af name arcname fs = Inr (AList.update af (Archive (ms @ ?vms)) fs)"
    using assms True by (simp add: archive_add_def tar_add_def)
  moreover have "\<forall>(nm, x) \<in> set ?vms. nm = arcname
                 \<or> (\<exists>q \<in> fst ` set fs. is_under name q \<and> q \<noteq> name \<and> q \<noteq> af
                       \<and> nm = arcname @ ''/'' @ join_sep ''/'' (drop (length name) q))"
    by force
  ultimately show ?thesis by blast
next
  case False
  have "archive_add af name arcname fs = Inr (AList.update af (Archive (ms @ [(arcname, n)])) fs)"
    using assms False by (cases n) (simp_all add: archive_add_def tar_add_def)
  then show ?thesis by force
qed

lemma path_div_plain:
  "path_div p CONFIG_NAME = p @ [''config.json'']"
  "path_div p WEIGHTS_NAME = p @ [''weights.pt'']"
  "path_div p METRICS_NAME = p @ [''metrics.json'']"
  "path_div p ''model.pt'' = p @ [''model.pt'']"
  "path_div p ''vocabulary'' = p @ [''vocabulary'']"
  "path_div p ''model.tar.gz'' = p @ [''model.tar.gz'']"
  by (simp_all add: path_div_def CONFIG_NAME_def WEIGHTS_NAME_def METRICS_NAME_def)

lemma under_drop_nonempty:
  "is_under d q \<Longrightarrow> q \<noteq> d \<Longrightarrow> drop (length d) q \<noteq> []"
  unfolding is_under_def by (metis append_Nil2 append_take_drop_id)

lemma add_artifacts_result:
  assumes ne: "cfile \<noteq> af" "wfile \<noteq> af" "mfile \<noteq> af" "voc \<noteq> af"
    and cfg: "map_of fs0 cfile = Some (File c)"
    and wts: "map_of fs0 wfile = Some (File w)"
    and met: "map_of fs0 mfile = Some (File m)"
    and vc: "map_of fs0 voc = Some vn"
    and af: "map_of fs0 af = Some (Archive [])"
  shows "\<exists>vms fs4. add_artifacts af cfile wfile mfile voc fs0 = (Inr (), fs4)
           \<and> map_of fs4 af = Some (Archive ([(CONFIG_NAME, File c), (WEIGHTS_NAME, File w),
                                              (METRICS_NAME, File m)] @ vms))
           \<and> (\<forall>q. q \<noteq> af \<longrightarrow> map_of fs4 q = map_of fs0 q)
           \<and> (\<forall>(nm, x) \<in> set vms. nm = ''vocabulary''
                 \<or> (\<exists>q \<in> fst ` set fs0. is_under voc q \<and> q \<noteq> voc \<and> q \<noteq> af
                       \<and> nm = ''vocabulary'' @ ''/'' @ join_sep ''/'' (drop (length voc) q)))"
proof -
  let ?fs1 = "AList.update af (Archive ([] @ [(CONFIG_NAME, File c)])) fs0"
  let ?fs2 = "AList.update af (Archive (([] @ [(CONFIG_NAME, File c)]) @ [(WEIGHTS_NAME, File w)])) ?fs1"
  let ?fs3 = "AList.update af (Archive ((([] @ [(CONFIG_NAME, File c)]) @ [(WEIGHTS_NAME, File w)])
                 @ [(METRICS_NAME, File m)])) ?fs2"
  have 1: "archive_add af cfile CONFIG_NAME fs0 = Inr ?fs1"
    using ne(1) cfg af by (rule archive_add_file)
  have 2: "archive_add af wfile WEIGHTS_NAME ?fs1 = Inr ?fs2"
    using ne(2) wts by (intro archive_add_file) (simp_all add: update_conv')
  have 3: "archive_add af mfile METRICS_NAME ?fs2 = Inr ?fs3"
    using ne(3) met by (intro archive_add_file) (simp_all add: update_conv')
  have "map_of ?fs3 voc = Some vn" using ne(4) vc by (simp add: update_conv')
  from archive_add_tree [OF ne(4) this, of _ "''vocabulary''"]
  obtain vms where 4: "archive_add af voc ''vocabulary'' ?fs3 =
        Inr (AList.update af (Archive (((([] @ [(CONFIG_NAME, File c)]) @ [(WEIGHTS_NAME, File w)])
                 @ [(METRICS_NAME, File m)]) @ vms)) ?fs3)"
    and v: "\<forall>(nm, x) \<in> set vms. nm = ''vocabulary''
                 \<or> (\<exists>q \<in> fst ` set ?fs3. is_under voc q \<and> q \<noteq> voc \<and> q \<noteq> af
                       \<and> nm = ''vocabulary'' @ ''/'' @ join_sep ''/'' (drop (length voc) q))"
    by (auto simp: update_conv')
  have keys: "fst ` set ?fs3 = insert af (fst ` set fs0)"
    by (simp add: dom_update)
  have v': "\<forall>(nm, x) \<in> set vms. nm = ''vocabulary''
                 \<or> (\<exists>q \<in> fst ` set fs0. is_under voc q \<and> q \<noteq> voc \<and> q \<noteq> af
                       \<and> nm = ''vocabulary'' @ ''/'' @ join_sep ''/'' (drop (length voc) q))"
    using v unfolding keys by blast
  have r: "add_artifacts af cfile wfile mfile voc fs0 =
      (Inr (), AList.update af (Archive (((([] @ [(CONFIG_NAME, File c)]) @ [(WEIGHTS_NAME, File w)])
                 @ [(METRICS_NAME, File m)]) @ vms)) ?fs3)"
    unfolding add_artifacts_def 1 2 3 4 sum.case by (rule refl)
  let ?fs4 = "AList.update af (Archive (((([] @ [(CONFIG_NAME, File c)]) @ [(WEIGHTS_NAME, File w)])
                 @ [(METRICS_NAME, File m)]) @ vms)) ?fs3"
  have m4: "map_of ?fs4 af = Some (Archive ([(CONFIG_NAME, File c), (WEIGHTS_NAME, File w),
                                              (METRICS_NAME, File m)] @ vms))"
    by (simp add: update_conv')
  have fr: "\<forall>q. q \<noteq> af \<longrightarrow> map_of ?fs4 q = map_of fs0 q"
    by (simp add: update_conv')
  from r m4 fr v' show ?thesis by blast
qed


lemma rel_name_single: "wf_name n \<Longrightarrow> rel_name n [n]"
  by (simp add: rel_name_def)

lemma wf_name_consts:
  "wf_name ''config.json''" "wf_name ''weights.pt''" "wf_name ''metrics.json''"
  "wf_name ''vocabulary''"
  by (simp_all add: wf_name_def)

lemma pack_result:
  assumes cfg: "map_of (files s) (path_div sd CONFIG_NAME) = Some (File c)"
    and wts: "map_of (files s) (path_div weights ''model.pt'') = Some (File w)"
    and met: "map_of (files s) (path_div weights METRICS_NAME) = Some (File m)"
    and voc: "path_exists (files s) (path_div sd ''vocabulary'')"
    and vnames: "\<forall>q \<in> fst ` set (files s). is_under (path_div sd ''vocabulary'') q
                   \<longrightarrow> (\<forall>c \<in> set (drop (Suc (length sd)) q). wf_name c)"
    and out: "is_dir (files s) sd" "\<not> is_dir (files s) (path_div sd ''model.tar.gz'')"
  shows "\<exists>vms fs4 l. archive_model sd weights None s = (Inr (), s\<lparr>log := log s @ l, files := fs4\<rparr>)
           \<and> map_of fs4 (sd @ [''model.tar.gz''])
               = Some (Archive ([(CONFIG_NAME, File c), (WEIGHTS_NAME, File w),
                                 (METRICS_NAME, File m)] @ vms))
           \<and> (\<forall>q. q \<noteq> sd @ [''model.tar.gz''] \<longrightarrow> map_of fs4 q = map_of (files s) q)
           \<and> (\<forall>(nm, x) \<in> set vms. \<exists>rel. rel_name nm (''vocabulary'' # rel))"
proof -
  let ?af = "sd @ [''model.tar.gz'']"
  let ?voc = "sd @ [''vocabulary'']"
  let ?fs0 = "AList.update ?af (Archive []) (files s)"
  let ?msg = "''Archiving data to '' @ str_of_path ?af @ ''.''"
  have ow: "open_w ?af (Archive []) (files s) = Inr ?fs0"
    using out by (auto simp: open_w_def path_div_plain is_dir_def path_exists_def)
  from voc obtain vn where vn: "map_of (files s) ?voc = Some vn"
    by (auto simp: path_exists_def path_div_plain)
  have "\<exists>vms fs4. add_artifacts ?af (sd @ [''config.json'']) (weights @ [''model.pt''])
                     (weights @ [''metrics.json'']) ?voc ?fs0 = (Inr (), fs4)
           \<and> map_of fs4 ?af = Some (Archive ([(CONFIG_NAME, File c), (WEIGHTS_NAME, File w),
                                              (METRICS_NAME, File m)] @ vms))
           \<and> (\<forall>q. q \<noteq> ?af \<longrightarrow> map_of fs4 q = map_of ?fs0 q)
           \<and> (\<forall>(nm, x) \<in> set vms. nm = ''vocabulary''
                 \<or> (\<exists>q \<in> fst ` set ?fs0. is_under ?voc q \<and> q \<noteq> ?voc \<and> q \<noteq> ?af
                       \<and> nm = ''vocabulary'' @ ''/'' @ join_sep ''/'' (drop (length ?voc) q)))"
    using cfg wts met vn
    by (intro add_artifacts_result) (auto simp: update_conv' path_div_plain)
  then obtain vms fs4 where
    r: "add_artifacts ?af (sd @ [''config.json'']) (weights @ [''model.pt''])
                     (weights @ [''metrics.json'']) ?voc ?fs0 = (Inr (), fs4)"
    and m4: "map_of fs4 ?af = Some (Archive ([(CONFIG_NAME, File c), (WEIGHTS_NAME, File w),
                                              (METRICS_NAME, File m)] @ vms))"
    and fr: "\<forall>q. q \<noteq> ?af \<longrightarrow> map_of fs4 q = map_of ?fs0 q"
    and v: "\<forall>(nm, x) \<in> set vms. nm = ''vocabulary''
                 \<or> (\<exists>q \<in> fst ` set ?fs0. is_under ?voc q \<and> q \<noteq> ?voc \<and> q \<noteq> ?af
                       \<and> nm = ''vocabulary'' @ ''/'' @ join_sep ''/'' (drop (length ?voc) q))"
    by blast
  have names: "\<exists>rel. rel_name nm (''vocabulary'' # rel)" if "(nm, x) \<in> set vms" for nm x
  proof -
    from v that consider "nm = ''vocabulary''"
      | q where "q \<in> fst ` set ?fs0" "is_under ?voc q" "q \<noteq> ?voc" "q \<noteq> ?af"
          "nm = ''vocabulary'' @ ''/'' @ join_sep ''/'' (drop (length ?voc) q)"
      by blast
    then show ?thesis
    proof cases
      case 1
      then have "rel_name nm (''vocabulary'' # [])"
        by (simp add: rel_name_single wf_name_consts)
      then show ?thesis by blast
    next
      case 2
      let ?rel = "drop (length ?voc) q"
      have qk: "q \<in> fst ` set (files s)"
        using 2(1,4) by (simp add: dom_update)
      have "\<forall>c \<in> set (drop (Suc (length sd)) q). wf_name c"
        using vnames qk 2(2) unfolding path_div_plain by blast
      then have w: "\<forall>c \<in> set ?rel. wf_name c" by simp
      have ne: "?rel \<noteq> []" using 2(2,3) by (rule under_drop_nonempty)
      have "nm = join_sep ''/'' (''vocabulary'' # ?rel)"
        using 2(5) ne by (simp add: join_sep_Cons)
      with w have "rel_name nm (''vocabulary'' # ?rel)"
        by (simp add: rel_name_def wf_name_consts)
      then show ?thesis by blast
    qed
  qed
  have pe: "path_exists (files s) (path_div weights ''model.pt'')"
    "path_exists (files s) (path_div weights METRICS_NAME)"
    "path_exists (files s) (path_div sd CONFIG_NAME)"
    using cfg wts met by (simp_all add: path_exists_def)
  have am: "archive_model sd weights None s = (Inr (), s\<lparr>log := log s @ [(INFO, ?msg)], files := fs4\<rparr>)"
    unfolding archive_model_def Let_def
    using pe ow r by (simp add: logger_info_eq path_div_plain)
  have fr': "\<forall>q. q \<noteq> ?af \<longrightarrow> map_of fs4 q = map_of (files s) q"
    using fr by (simp add: update_conv')
  from am m4 fr' names show ?thesis by blast
qed


lemma unpack_result:
  fixes from_file :: "string \<Rightarrow> exn + 'c" and json_load :: "string \<Rightarrow> exn + 'k"
    and model_load :: "filesystem \<Rightarrow> 'c \<Rightarrow> fpath \<Rightarrow> fpath \<Rightarrow> int \<Rightarrow> exn + 'm"
  assumes arch: "map_of (files s') af
                   = Some (Archive ([(CONFIG_NAME, File c), (WEIGHTS_NAME, File w),
                                     (METRICS_NAME, File m)] @ vms))"
    and afne: "af \<noteq> []"
    and vn: "\<forall>(nm, x) \<in> set vms. \<exists>rel. rel_name nm (''vocabulary'' # rel)"
    and tmp: "mkdtemp = str_of_path tparts" "tparts \<noteq> []" "\<forall>c \<in> set tparts. wf_name c"
    and fresh: "\<not> path_exists (files s') tparts" "is_dir (files s') (butlast tparts)"
  shows "\<exists>fs_x. map_of fs_x (tparts @ [WEIGHTS_NAME]) = Some (File w)
           \<and> fst (load_archive from_file json_load model_load mkdtemp af cuda_device s') =
               (case from_file c of
                  Inl e \<Rightarrow> Inl e
                | Inr config \<Rightarrow>
                    (case json_load m of
                       Inl e \<Rightarrow> Inl e
                     | Inr metrics \<Rightarrow>
                         (case model_load fs_x config (tparts @ [''vocabulary''])
                                 (tparts @ [WEIGHTS_NAME]) cuda_device of
                            Inl e \<Rightarrow> Inl e
                          | Inr model \<Rightarrow> Inr (model, config, metrics))))"
proof -
  let ?ms = "[(CONFIG_NAME, File c), (WEIGHTS_NAME, File w), (METRICS_NAME, File m)] @ vms"
  let ?wd = "cwd s'"
  let ?K = "\<lambda>n. resolve ?wd (path_join mkdtemp n)"
  let ?fs1 = "AList.update tparts Dir (files s')"
  define fsx where "fsx = extractall ?wd mkdtemp ?ms ?fs1"
  define s0 where "s0 = logger_info (''Loading archive file '' @ str_of_path af) s'"
  have s0: "files s0 = files s'" "cwd s0 = cwd s'" by (simp_all add: s0_def logger_info_eq)
  have rt: "resolve wd mkdtemp = tparts" for wd
    unfolding tmp(1) by (rule resolve_str_of_path [OF tmp(2,3)])
  have nd: "\<not> is_dir (files s') af"
    using arch afne by (simp add: is_dir_def)
  have tne: "tparts \<noteq> af"
    using arch fresh(1) by (auto simp: path_exists_def)
  have mk: "mkdir tparts (files s') = Inr ?fs1"
    using fresh by (auto simp: mkdir_def is_dir_def path_exists_def)
  have op: "tar_open_r af ?fs1 = Inr ?ms"
    using arch afne tne by (simp add: tar_open_r_def is_dir_def update_conv')
  have K1: "?K n = tparts @ [n]" if "wf_name n" for n
    using resolve_rel [OF tmp(2,3), of "[n]" ?wd] that by (simp add: tmp(1))
  have Kc: "?K CONFIG_NAME = tparts @ [''config.json'']"
    and Kw: "?K WEIGHTS_NAME = tparts @ [''weights.pt'']"
    and Km: "?K METRICS_NAME = tparts @ [''metrics.json'']"
    using K1 wf_name_consts by (simp_all add: CONFIG_NAME_def WEIGHTS_NAME_def METRICS_NAME_def)
  have Kv: "\<exists>rel. ?K nm = tparts @ ''vocabulary'' # rel" if "(nm, x) \<in> set vms" for nm x
  proof -
    from vn that obtain rel where r: "rel_name nm (''vocabulary'' # rel)" by blast
    then have "?K nm = tparts @ (''vocabulary'' # rel)"
      using resolve_rel [OF tmp(2,3), of "''vocabulary'' # rel" ?wd]
      by (simp add: rel_name_def tmp(1))
    then show ?thesis by blast
  qed
  have rel_all: "\<forall>(n, x) \<in> set ?ms. \<exists>comps. rel_name n comps"
    using vn by (auto simp: CONFIG_NAME_def WEIGHTS_NAME_def METRICS_NAME_def
        intro: rel_name_single wf_name_consts)
  have ck: "check_members ?wd mkdtemp ?ms = Inr ()"
    unfolding tmp(1) by (rule check_members_rel [OF tmp(2,3) rel_all])
  have vk: "\<forall>(n, x) \<in> set vms. ?K n \<noteq> tparts @ [k]" if "k \<noteq> ''vocabulary''" for k
    using Kv that by fastforce
  have xc: "map_of fsx (tparts @ [''config.json'']) = Some (File c)"
  proof -
    let ?f = "write_member (?K CONFIG_NAME) (File c) ?fs1"
    have o: "\<forall>(n, x) \<in> set ([(WEIGHTS_NAME, File w), (METRICS_NAME, File m)] @ vms).
            ?K n \<noteq> tparts @ [''config.json'']"
      using vk [of "''config.json''"] by (auto simp: Kw Km)
    have v: "map_of ?f (tparts @ [''config.json'']) = Some (File c)"
      unfolding Kc by (rule map_of_write_member(1))
    then have "map_of ?f (tparts @ [''config.json'']) \<noteq> None" by simp
    from extractall_other [OF o this] v
    show ?thesis unfolding fsx_def by (simp add: extractall_Cons)
  qed
  have xm: "map_of fsx (tparts @ [''metrics.json'']) = Some (File m)"
  proof -
    let ?f = "write_member (?K METRICS_NAME) (File m)
                (write_member (?K WEIGHTS_NAME) (File w)
                   (write_member (?K CONFIG_NAME) (File c) ?fs1))"
    have o: "\<forall>(n, x) \<in> set vms. ?K n \<noteq> tparts @ [''metrics.json'']"
      using vk [of "''metrics.json''"] by simp
    have v: "map_of ?f (tparts @ [''metrics.json'']) = Some (File m)"
      unfolding Km by (rule map_of_write_member(1))
    then have "map_of ?f (tparts @ [''metrics.json'']) \<noteq> None" by simp
    from extractall_other [OF o this] v
    show ?thesis unfolding fsx_def by (simp add: extractall_Cons)
  qed
  have xw: "map_of fsx (tparts @ [''weights.pt'']) = Some (File w)"
  proof -
    let ?f = "write_member (?K WEIGHTS_NAME) (File w)
                (write_member (?K CONFIG_NAME) (File c) ?fs1)"
    have o: "\<forall>(n, x) \<in> set ([(METRICS_NAME, File m)] @ vms).
               ?K n \<noteq> tparts @ [''weights.pt'']"
      using vk [of "''weights.pt''"] by (auto simp: Km)
    have v: "map_of ?f (tparts @ [''weights.pt'']) = Some (File w)"
      unfolding Kw by (rule map_of_write_member(1))
    then have "map_of ?f (tparts @ [''weights.pt'']) \<noteq> None" by simp
    from extractall_other [OF o this] v
    show ?thesis unfolding fsx_def by (simp add: extractall_Cons)
  qed
  have rc: "read_text fsx (tparts @ [''config.json'']) = Inr c"
    and rm: "read_text fsx (tparts @ [''metrics.json'']) = Inr m"
    using xc xm by (simp_all add: read_text_def is_dir_def)
  have pw: "path_div tparts WEIGHTS_NAME = tparts @ [WEIGHTS_NAME]"
    by (simp add: path_div_def WEIGHTS_NAME_def)
  have ex: "\<exists>st. extracted_archive mkdtemp af False (\<lambda>tempdir st. (Inr tempdir, st)) s0
                = (Inr mkdtemp, st) \<and> cwd st = cwd s' \<and> files st = fsx"
    using mk op ck
    by (simp add: extracted_archive_def s0 rt logger_info_eq safe_extract_def Let_def fsx_def)
  then obtain st where st: "extracted_archive mkdtemp af False
              (\<lambda>tempdir st. (Inr tempdir, st)) s0 = (Inr mkdtemp, st)"
    "cwd st = cwd s'" "files st = fsx"
    by blast
  have "fst (load_archive from_file json_load model_load mkdtemp af cuda_device s') =
               (case from_file c of
                  Inl e \<Rightarrow> Inl e
                | Inr config \<Rightarrow>
                    (case json_load m of
                       Inl e \<Rightarrow> Inl e
                     | Inr metrics \<Rightarrow>
                         (case model_load fsx config (tparts @ [''vocabulary''])
                                 (tparts @ [''weights.pt'']) cuda_device of
                            Inl e \<Rightarrow> Inl e
                          | Inr model \<Rightarrow> Inr (model, config, metrics))))"
    unfolding load_archive_def Let_def s0_def [symmetric]
    using nd
    by (simp add: s0 st rt rc rm path_div_plain pw cong: sum.case_cong)
  with xw show ?thesis unfolding WEIGHTS_NAME_def by blast
qed


text \<open>
  C5. Take a source tree with the configuration file in the serialization directory, the
  weights file and the metrics file in the weights directory and a vocabulary whose entries
  bear well-formed names, a serialization directory in which the archive can be written, and
  a temporary directory that is free when \<^verbatim>\<open>load_archive\<close> asks for one. Then
  \<^verbatim>\<open>archive_model\<close> returns normally, and \<^verbatim>\<open>load_archive\<close> on the archive it wrote hands
  the text of the original \<^verbatim>\<open>config.json\<close> to \<^verbatim>\<open>Params.from_file\<close> and the text of the
  original \<^verbatim>\<open>metrics.json\<close> to \<^verbatim>\<open>json.load\<close>: its configuration and its metrics are
  what these make of the original files, and the model is loaded from the extracted copy of
  the original weights.
\<close>

theorem pack_unpack_round_trip:
  fixes from_file :: "string \<Rightarrow> exn + 'c" and json_load :: "string \<Rightarrow> exn + 'k"
    and model_load :: "filesystem \<Rightarrow> 'c \<Rightarrow> fpath \<Rightarrow> fpath \<Rightarrow> int \<Rightarrow> exn + 'm"
  assumes cfg: "map_of (files s) (path_div sd CONFIG_NAME) = Some (File c)"
    and wts: "map_of (files s) (path_div weights ''model.pt'') = Some (File w)"
    and met: "map_of (files s) (path_div weights METRICS_NAME) = Some (File m)"
    and voc: "path_exists (files s) (path_div sd ''vocabulary'')"
    and vnames: "\<forall>q \<in> fst ` set (files s). is_under (path_div sd ''vocabulary'') q
                   \<longrightarrow> (\<forall>c \<in> set (drop (Suc (length sd)) q). wf_name c)"
    and out: "is_dir (files s) sd" "\<not> is_dir (files s) (path_div sd ''model.tar.gz'')"
    and packed: "s' = snd (archive_model sd weights None s)"
    and tmp: "mkdtemp = str_of_path tparts" "tparts \<noteq> []" "\<forall>c \<in> set tparts. wf_name c"
    and fresh: "\<not> path_exists (files s') tparts" "is_dir (files s') (butlast tparts)"
  shows
    "fst (archive_model sd weights None s) = Inr ()
     \<and> (\<exists>fs_x. map_of fs_x (tparts @ [WEIGHTS_NAME]) = Some (File w)
           \<and> fst (load_archive from_file json_load model_load mkdtemp
                     (path_div sd ''model.tar.gz'') cuda_device s') =
               (case from_file c of
                  Inl e \<Rightarrow> Inl e
                | Inr config \<Rightarrow>
                    (case json_load m of
                       Inl e \<Rightarrow> Inl e
                     | Inr metrics \<Rightarrow>
                         (case model_load fs_x config (tparts @ [''vocabulary''])
                                 (tparts @ [WEIGHTS_NAME]) cuda_device of
                            Inl e \<Rightarrow> Inl e
                          | Inr model \<Rightarrow> Inr (model, config, metrics)))))"
proof -
  from pack_result [OF cfg wts met voc vnames out]
  obtain vms fs4 l where
    am: "archive_model sd weights None s = (Inr (), s\<lparr>log := log s @ l, files := fs4\<rparr>)"
    and m4: "map_of fs4 (sd @ [''model.tar.gz''])
               = Some (Archive ([(CONFIG_NAME, File c), (WEIGHTS_NAME, File w),
                                 (METRICS_NAME, File m)] @ vms))"
    and vn: "\<forall>(nm, x) \<in> set vms. \<exists>rel. rel_name nm (''vocabulary'' # rel)"
    by blast
  have arch: "map_of (files s') (sd @ [''model.tar.gz''])
               = Some (Archive ([(CONFIG_NAME, File c), (WEIGHTS_NAME, File w),
                                 (METRICS_NAME, File m)] @ vms))"
    using m4 by (simp add: packed am)
  have afne: "sd @ [''model.tar.gz''] \<noteq> []" by simp
  from unpack_result [OF arch afne vn tmp fresh, of from_file json_load model_load cuda_device] am
  show ?thesis by (simp add: path_div_plain)
qed

theorem pack_unpack_round_trip_witness:
  "fst (archive_model [''run''] [''run'', ''best-model''] None (demo_state\<lparr>files := demo_files\<rparr>))
     = Inr ()
   \<and> fst (load_archive (\<lambda>t. Inr (''config'' @ t)) (\<lambda>t. Inr (''metrics'' @ t))
           (\<lambda>fs c v w d. Inr (v, w)) ''/tmp/tmpab'' [''run'', ''model.tar.gz''] (- 1)
           (snd (archive_model [''run''] [''run'', ''best-model''] None
                   (demo_state\<lparr>files := demo_files\<rparr>))))
     = Inr (([''tmp'', ''tmpab'', ''vocabulary''], [''tmp'', ''tmpab'', ''weights.pt'']),
            ''config{cfg}'', ''metrics{m}'')"
proof -
  let ?s = "demo_state\<lparr>files := demo_files\<rparr>"
  let ?s' = "snd (archive_model [''run''] [''run'', ''best-model''] None ?s)"
  have cfg: "map_of (files ?s) (path_div [''run''] CONFIG_NAME) = Some (File ''{cfg}'')"
    and wts: "map_of (files ?s) (path_div [''run'', ''best-model''] ''model.pt'') = Some (File ''W'')"
    and met: "map_of (files ?s) (path_div [''run'', ''best-model''] METRICS_NAME)
                = Some (File ''{m}'')"
    and voc: "path_exists (files ?s) (path_div [''run''] ''vocabulary'')"
    and out: "is_dir (files ?s) [''run'']" "\<not> is_dir (files ?s) (path_div [''run''] ''model.tar.gz'')"
    by code_simp+
  have vnames: "\<forall>q \<in> fst ` set (files ?s). is_under (path_div [''run''] ''vocabulary'') q
                   \<longrightarrow> (\<forall>c \<in> set (drop (Suc (length [''run''])) q). wf_name c)"
    by code_simp
  have tmp: "''/tmp/tmpab'' = str_of_path [''tmp'', ''tmpab'']" "[''tmp'', ''tmpab''] \<noteq> []"
    "\<forall>c \<in> set [''tmp'', ''tmpab'']. wf_name c"
    by code_simp+
  have fresh: "\<not> path_exists (files ?s') [''tmp'', ''tmpab'']"
    "is_dir (files ?s') (butlast [''tmp'', ''tmpab''])"
    by code_simp+
  from pack_unpack_round_trip [OF cfg wts met voc vnames out refl tmp fresh,
      of "\<lambda>t. Inr (''config'' @ t)" "\<lambda>t. Inr (''metrics'' @ t)" "\<lambda>fs c v w d. Inr (v, w)" "- 1"]
  show ?thesis by (simp add: path_div_plain WEIGHTS_NAME_def)
qed

end
